theory Spec2Isabelle
  imports Complex_Main "HOL-Library.Sublist" "HOL-Library.Log_Nat"
begin

section \<open>Markdown to DOCX converter: the text pre-processor\<close>

text \<open>
  The converter of \<^verbatim>\<open>misc/word.py\<close> works on Python strings. A string of the model is a
  list of characters, each character standing for one code point below 256; the
  characters that matter to the code (\<^verbatim>\<open>! [ ] ( ) #\<close>, the space, the newline) are all
  ASCII.
\<close>

subsection \<open>The string methods the code uses\<close>

definition newline :: char where
  "newline = CHR 0x0A"

text \<open>\<^verbatim>\<open>str.isspace\<close> on one code point below 256: tab, line feed, vertical tab, form
  feed, carriage return, the four separators 0x1C..0x1F, the space, NEL and the no-break
  space.\<close>

definition is_space :: "char \<Rightarrow> bool" where
  "is_space c = (c \<in> {CHR 0x09, CHR 0x0A, CHR 0x0B, CHR 0x0C, CHR 0x0D,
                        CHR 0x1C, CHR 0x1D, CHR 0x1E, CHR 0x1F, CHR 0x20,
                        CHR 0x85, CHR 0xA0})"

definition lstrip :: "string \<Rightarrow> string" where
  "lstrip s = dropWhile is_space s"

definition rstrip :: "string \<Rightarrow> string" where
  "rstrip s = rev (dropWhile is_space (rev s))"

text \<open>\<^verbatim>\<open>s.strip()\<close>\<close>

definition strip :: "string \<Rightarrow> string" where
  "strip s = rstrip (lstrip s)"

text \<open>\<^verbatim>\<open>s.startswith(p)\<close>\<close>

fun startswith :: "string \<Rightarrow> string \<Rightarrow> bool" where
  "startswith s [] = True"
| "startswith [] (p # ps) = False"
| "startswith (c # cs) (p # ps) = (c = p \<and> startswith cs ps)"

text \<open>\<^verbatim>\<open>s.split('\n')\<close>: the pieces between the line feeds, the empty string giving one
  empty piece.\<close>

fun split_nl :: "string \<Rightarrow> string list" where
  "split_nl [] = [[]]"
| "split_nl (c # cs) =
     (if c = newline then [] # split_nl cs
      else (case split_nl cs of
              [] \<Rightarrow> [[c]]
            | l # ls \<Rightarrow> (c # l) # ls))"

subsection \<open>Title extraction\<close>

text \<open>
  \<^verbatim>\<open>
  lines = content.split('\n')
  for line in lines:
      if line.startswith('# '):
          return line[2:].strip()
  return "Untitled Document"
  \<close>
\<close>

fun first_h1 :: "string list \<Rightarrow> string" where
  "first_h1 [] = ''Untitled Document''"
| "first_h1 (line # lines) =
     (if startswith line ''# '' then strip (drop 2 line) else first_h1 lines)"

definition extract_title_from_markdown :: "string \<Rightarrow> string" where
  "extract_title_from_markdown content = first_h1 (split_nl content)"


lemma split_nl_nonempty: "split_nl s \<noteq> []"
  by (induction s) (auto split: list.splits)

lemma first_h1_none:
  "\<forall>l \<in> set ls. \<not> startswith l ''# '' \<Longrightarrow> first_h1 ls = ''Untitled Document''"
  by (induction ls) auto

lemma first_h1_first:
  "i < length ls \<Longrightarrow> startswith (ls ! i) ''# '' \<Longrightarrow>
   \<forall>j < i. \<not> startswith (ls ! j) ''# '' \<Longrightarrow>
   first_h1 ls = strip (drop 2 (ls ! i))"
proof (induction ls arbitrary: i)
  case Nil
  then show ?case by simp
next
  case (Cons l ls)
  show ?case
  proof (cases i)
    case 0
    with Cons.prems show ?thesis by simp
  next
    case (Suc k)
    with Cons.prems have "\<not> startswith l ''# ''" by auto
    moreover have "first_h1 ls = strip (drop 2 (ls ! k))"
    proof (rule Cons.IH)
      show "k < length ls" using Cons.prems Suc by simp
      show "startswith (ls ! k) ''# ''" using Cons.prems Suc by simp
      show "\<forall>j < k. \<not> startswith (ls ! j) ''# ''"
      proof (intro allI impI)
        fix j assume "j < k"
        then have "Suc j < i" using Suc by simp
        with Cons.prems have "\<not> startswith ((l # ls) ! Suc j) ''# ''" by blast
        then show "\<not> startswith (ls ! j) ''# ''" by simp
      qed
    qed
    ultimately show ?thesis using Suc by simp
  qed
qed

subsection \<open>The image pattern\<close>

text \<open>
  \<^verbatim>\<open>IMAGE_PATTERN = re.compile(r'!\[(.*?)\]\((.*?)\)')\<close>

  The matcher follows the backtracking search of the regular expression engine. A lazy
  group \<^verbatim>\<open>(.*?)\<close> first tries what follows it and takes one more character, any
  character but the line feed, only when that fails. Each function returns the captured
  groups and the text left after the match.
\<close>

text \<open>\<^verbatim>\<open>(.*?)\)\<close>\<close>

fun match_path :: "string \<Rightarrow> (string \<times> string) option" where
  "match_path [] = None"
| "match_path (c # cs) =
     (if c = CHR '')'' then Some ([], cs)
      else if c = newline then None
      else map_option (\<lambda>(p, r). (c # p, r)) (match_path cs))"

text \<open>\<^verbatim>\<open>\]\((.*?)\)\<close>\<close>

fun match_close :: "string \<Rightarrow> (string \<times> string) option" where
  "match_close (c1 # c2 # cs) =
     (if c1 = CHR '']'' \<and> c2 = CHR ''('' then match_path cs else None)"
| "match_close _ = None"

text \<open>\<^verbatim>\<open>(.*?)\]\((.*?)\)\<close>\<close>

fun match_alt :: "string \<Rightarrow> (string \<times> string \<times> string) option" where
  "match_alt [] = None"
| "match_alt (c # cs) =
     (case match_close (c # cs) of
        Some (p, r) \<Rightarrow> Some ([], p, r)
      | None \<Rightarrow>
          if c = newline then None
          else map_option (\<lambda>(a, p, r). (c # a, p, r)) (match_alt cs))"

text \<open>The whole pattern, tried at the start of the given text.\<close>

fun match_image :: "string \<Rightarrow> (string \<times> string \<times> string) option" where
  "match_image (c1 # c2 # cs) =
     (if c1 = CHR ''!'' \<and> c2 = CHR ''['' then match_alt cs else None)"
| "match_image _ = None"

lemma match_path_decomp:
  "match_path s = Some (p, r) \<Longrightarrow> s = p @ '')'' @ r"
  by (induction s arbitrary: p) (auto split: if_splits)

lemma match_close_decomp:
  "match_close s = Some (p, r) \<Longrightarrow> s = ''](''  @ p @ '')'' @ r"
  by (induction s rule: match_close.induct) (auto split: if_splits dest: match_path_decomp)

lemma match_alt_decomp:
  "match_alt s = Some (a, p, r) \<Longrightarrow> s = a @ '']('' @ p @ '')'' @ r"
proof (induction s arbitrary: a)
  case Nil
  then show ?case by simp
next
  case (Cons c cs)
  show ?case
  proof (cases "match_close (c # cs)")
    case (Some pr)
    with Cons.prems have "a = []" and "match_close (c # cs) = Some (p, r)"
      by (auto split: prod.splits)
    then show ?thesis using match_close_decomp by fastforce
  next
    case None
    with Cons.prems obtain a' where "a = c # a'" and "match_alt cs = Some (a', p, r)"
      by (auto split: if_splits)
    with Cons.IH show ?thesis by simp
  qed
qed

lemma match_image_decomp:
  "match_image s = Some (a, p, r) \<Longrightarrow> s = ''!['' @ a @ '']('' @ p @ '')'' @ r"
  by (induction s rule: match_image.induct) (auto split: if_splits dest: match_alt_decomp)

lemma match_image_shorter:
  "match_image s = Some (a, p, r) \<Longrightarrow> length r < length s"
  by (drule match_image_decomp) simp

text \<open>
  \<^verbatim>\<open>IMAGE_PATTERN.findall(content)\<close>: the matches from left to right, none overlapping
  another; the search resumes after a match, and one character further where there is
  none. With two groups in the pattern each match is the pair of its groups.
\<close>

function findall_image :: "string \<Rightarrow> (string \<times> string) list" where
  "findall_image [] = []"
| "findall_image (c # cs) =
     (case match_image (c # cs) of
        Some (a, p, r) \<Rightarrow> (a, p) # findall_image r
      | None \<Rightarrow> findall_image cs)"
  by pat_completeness auto
termination
  by (relation "measure length") (auto dest: match_image_shorter)



subsection \<open>Image references\<close>

text \<open>The dictionary stored for one image: the keys \<^verbatim>\<open>'alt_text'\<close>, \<^verbatim>\<open>'path'\<close> and
  \<^verbatim>\<open>'original_markdown'\<close>.\<close>

record image_ref =
  alt_text :: string
  path :: string
  original_markdown :: string

text \<open>
  \<^verbatim>\<open>
  for alt_text, path in matches:
      path = path.strip()
      if path.startswith('img/'):
          path = path[4:]
      image_refs.append({'alt_text': alt_text, 'path': path,
                         'original_markdown': f'![{alt_text}]({path})'})
  \<close>
\<close>

definition image_ref_of_match :: "string \<times> string \<Rightarrow> image_ref" where
  "image_ref_of_match m =
     (case m of (alt, p) \<Rightarrow>
        let p1 = strip p;
            p2 = (if startswith p1 ''img/'' then drop 4 p1 else p1)
        in \<lparr>alt_text = alt, path = p2,
            original_markdown = ''!['' @ alt @ '']('' @ p2 @ '')''\<rparr>)"

definition extract_image_references :: "string \<Rightarrow> image_ref list" where
  "extract_image_references content = map image_ref_of_match (findall_image content)"


subsection \<open>Properties of title extraction\<close>

text \<open>\<^verbatim>\<open>'\n'.join(lines)\<close>, to say what the lines of a content are: joined again they
  give the content back, and none holds a line feed.\<close>

fun join_nl :: "string list \<Rightarrow> string" where
  "join_nl [] = []"
| "join_nl [l] = l"
| "join_nl (l # l' # ls) = l @ newline # join_nl (l' # ls)"

lemma join_split_nl: "join_nl (split_nl s) = s"
proof (induction s)
  case Nil
  then show ?case by simp
next
  case (Cons c cs)
  obtain l ls where sp: "split_nl cs = l # ls"
    using split_nl_nonempty [of cs] by (cases "split_nl cs") auto
  with Cons show ?case by (cases ls) auto
qed

lemma split_nl_no_newline: "list_all (\<lambda>l. newline \<notin> set l) (split_nl s)"
  by (induction s) (auto split: list.splits)

text \<open>
  C8. A content none of whose lines begins with \<^verbatim>\<open># \<close> has the title
  \<^verbatim>\<open>Untitled Document\<close>. Otherwise the title is the first such line without its first
  two characters, stripped of the white space on both sides.
\<close>

theorem extract_title_h1_or_default:
  "((\<forall>l \<in> set (split_nl content). \<not> startswith l ''# '') \<longrightarrow>
      extract_title_from_markdown content = ''Untitled Document'') \<and>
   (\<forall>i < length (split_nl content).
      startswith (split_nl content ! i) ''# '' \<and>
      (\<forall>j < i. \<not> startswith (split_nl content ! j) ''# '') \<longrightarrow>
      extract_title_from_markdown content = strip (drop 2 (split_nl content ! i)))"
  unfolding extract_title_from_markdown_def
  using first_h1_none [of "split_nl content"] first_h1_first [of _ "split_nl content"]
  by blast

theorem extract_title_h1_or_default_witness:
  "extract_title_from_markdown ''no h1'' = ''Untitled Document'' \<and>
   extract_title_from_markdown
     (''a'' @ [newline] @ ''#  Hi '' @ [newline] @ ''# b'') = ''Hi''"
proof -
  let ?c = "''a'' @ [newline] @ ''#  Hi '' @ [newline] @ ''# b''"
  have nl: "newline \<noteq> CHR ''#''" "newline \<noteq> CHR '' ''"
    by (simp_all add: newline_def)
  have s1: "split_nl ''no h1'' = [''no h1'']"
    by (simp add: newline_def)
  have s2: "split_nl ?c = [''a'', ''#  Hi '', ''# b'']"
    by (simp add: newline_def)
  have a: "extract_title_from_markdown ''no h1'' = ''Untitled Document''"
    using extract_title_h1_or_default [of "''no h1''"] s1 by simp
  have "startswith (split_nl ?c ! 1) ''# '' \<and>
        (\<forall>j < 1. \<not> startswith (split_nl ?c ! j) ''# '')"
    unfolding s2 by simp
  moreover have "(1::nat) < length (split_nl ?c)"
    unfolding s2 by simp
  ultimately have "extract_title_from_markdown ?c = strip (drop 2 (split_nl ?c ! 1))"
    using extract_title_h1_or_default [of ?c] by blast
  also have "\<dots> = ''Hi''"
    unfolding s2 by (simp add: strip_def lstrip_def rstrip_def is_space_def)
  finally show ?thesis using a by simp
qed

subsection \<open>Properties of the extracted references\<close>

text \<open>
  C7. The record stored for \<^verbatim>\<open>![a](img/x.png)\<close> holds, under \<^verbatim>\<open>original_markdown\<close>, the
  text \<^verbatim>\<open>![a](x.png)\<close>: the markup is built again from the path after it was stripped and
  its \<^verbatim>\<open>img/\<close> removed, and differs from the markup of the document.
\<close>

theorem original_markdown_rebuilt:
  "extract_image_references ''![a](img/x.png)'' =
     [\<lparr>alt_text = ''a'', path = ''x.png'', original_markdown = ''![a](x.png)''\<rparr>] \<and>
   original_markdown (hd (extract_image_references ''![a](img/x.png)'')) \<noteq> ''![a](img/x.png)''"
  by (simp add: extract_image_references_def image_ref_of_match_def strip_def lstrip_def
      rstrip_def is_space_def newline_def)

section \<open>The configuration\<close>

datatype paper_size = LETTER | LEGAL | A4

datatype document_style = REPORT | NOTE | LETTER_STYLE | MEMO

text \<open>A Python \<^verbatim>\<open>float\<close> as far as the comparisons with zero see it: a finite value, an
  infinity or a NaN, which is neither below zero nor at most zero.\<close>

datatype pyfloat = Fin real | PInf | NInf | NaN

text \<open>\<^verbatim>\<open>x < 0\<close>, \<^verbatim>\<open>x <= 0\<close>, \<^verbatim>\<open>x >= 0\<close> and \<^verbatim>\<open>x > 0\<close>\<close>

fun lt_zero :: "pyfloat \<Rightarrow> bool" where
  "lt_zero (Fin r) = (r < 0)"
| "lt_zero NInf = True"
| "lt_zero _ = False"

fun le_zero :: "pyfloat \<Rightarrow> bool" where
  "le_zero (Fin r) = (r \<le> 0)"
| "le_zero NInf = True"
| "le_zero _ = False"

fun ge_zero :: "pyfloat \<Rightarrow> bool" where
  "ge_zero (Fin r) = (0 \<le> r)"
| "ge_zero PInf = True"
| "ge_zero _ = False"

fun gt_zero :: "pyfloat \<Rightarrow> bool" where
  "gt_zero (Fin r) = (0 < r)"
| "gt_zero PInf = True"
| "gt_zero _ = False"

text \<open>The value given for one heading colour: a tuple of integers of some length, or an
  object that is no tuple.\<close>

datatype color_value = Tuple "int list" | NotATuple

text \<open>The value given for \<^verbatim>\<open>footer_text\<close>: a dictionary, as the list of its items, or
  another object, of which only the truth value matters.\<close>

datatype footer_value = Dict "(string \<times> string) list" | NotADict bool

text \<open>The arguments of \<^verbatim>\<open>DocumentConfig.__init__\<close>; \<open>None\<close> is Python's \<^verbatim>\<open>None\<close>, the
  default of \<^verbatim>\<open>heading_colors\<close> and \<^verbatim>\<open>footer_text\<close>.\<close>

record config_args =
  arg_style :: document_style
  arg_paper_size :: paper_size
  arg_author :: string
  arg_date :: string
  arg_heading_colors :: "(int \<times> color_value) list option"
  arg_footer_text :: "footer_value option"
  arg_font_name :: string
  arg_base_font_size :: int
  arg_margins :: "pyfloat list"
  arg_line_spacing :: pyfloat
  arg_generate_toc :: bool
  arg_language :: string
  arg_center_title :: bool

text \<open>The defaults of the signature.\<close>

definition default_args :: config_args where
  "default_args =
     \<lparr>arg_style = REPORT, arg_paper_size = LETTER, arg_author = [], arg_date = [],
      arg_heading_colors = None, arg_footer_text = None, arg_font_name = ''Arial'',
      arg_base_font_size = 12, arg_margins = [Fin 2, Fin 2, Fin 2, Fin 2],
      arg_line_spacing = Fin 1, arg_generate_toc = True, arg_language = ''en-US'',
      arg_center_title = True\<rparr>"

record document_config =
  style :: document_style
  paper_size :: paper_size
  author :: string
  date :: string
  heading_colors :: "(int \<times> color_value) list"
  footer_text :: footer_value
  font_name :: string
  base_font_size :: int
  margins :: "pyfloat list"
  line_spacing :: pyfloat
  generate_toc :: bool
  language :: string
  center_title :: bool

text \<open>The messages of the \<^verbatim>\<open>ValueError\<close>s of \<^verbatim>\<open>_validate\<close>, without the value each
  message quotes; the colour message names the heading level.\<close>

datatype config_error =
    BaseFontSizeNotPositive
  | MarginsNegative
  | LineSpacingNotPositive
  | ColorNotRGBTuple int
  | RGBValuesOutOfRange
  | FooterTextKeys

text \<open>The exceptions of the model: the \<^verbatim>\<open>ValueError\<close> of the validation, the
  \<^verbatim>\<open>TypeError\<close> of a call with the wrong number of arguments, the \<^verbatim>\<open>IndexError\<close> of
  \<^verbatim>\<open>pop\<close> on an empty list, and the \<^verbatim>\<open>KeyError\<close> of a lookup of a style by a name the
  document does not have.\<close>

datatype error = ValueError config_error | TypeError | IndexError | KeyError string

text \<open>\<^verbatim>\<open>heading_colors or {...}\<close> and \<^verbatim>\<open>footer_text or {...}\<close>: the default replaces
  \<^verbatim>\<open>None\<close> and every other false value, the empty dictionary among them.\<close>

definition default_heading_colors :: "(int \<times> color_value) list" where
  "default_heading_colors =
     [(1, Tuple [37, 150, 190]), (2, Tuple [37, 150, 190]), (3, Tuple [37, 150, 190])]"

definition default_footer_text :: footer_value where
  "default_footer_text = Dict [(''odd'', ''Page''), (''even'', ''Page'')]"

fun heading_colors_or_default ::
  "(int \<times> color_value) list option \<Rightarrow> (int \<times> color_value) list" where
  "heading_colors_or_default None = default_heading_colors"
| "heading_colors_or_default (Some []) = default_heading_colors"
| "heading_colors_or_default (Some cs) = cs"

fun footer_text_or_default :: "footer_value option \<Rightarrow> footer_value" where
  "footer_text_or_default None = default_footer_text"
| "footer_text_or_default (Some (Dict [])) = default_footer_text"
| "footer_text_or_default (Some (NotADict False)) = default_footer_text"
| "footer_text_or_default (Some v) = v"

text \<open>
  \<^verbatim>\<open>
  for level, color in self.heading_colors.items():
      if not isinstance(color, tuple) or len(color) != 3:
          raise ValueError(f"Color for heading {level} must be RGB tuple, got {color}")
      if not all(0 <= c <= 255 for c in color):
          raise ValueError(f"RGB values must be 0-255, got {color}")
  \<close>
\<close>

fun validate_colors :: "(int \<times> color_value) list \<Rightarrow> error option" where
  "validate_colors [] = None"
| "validate_colors ((level, NotATuple) # rest) = Some (ValueError (ColorNotRGBTuple level))"
| "validate_colors ((level, Tuple cs) # rest) =
     (if length cs \<noteq> 3 then Some (ValueError (ColorNotRGBTuple level))
      else if \<not> list_all (\<lambda>c. 0 \<le> c \<and> c \<le> 255) cs then Some (ValueError RGBValuesOutOfRange)
      else validate_colors rest)"

text \<open>\<^verbatim>\<open>'odd' in self.footer_text\<close>\<close>

fun has_key :: "footer_value \<Rightarrow> string \<Rightarrow> bool" where
  "has_key (Dict items) k = (k \<in> set (map fst items))"
| "has_key (NotADict _) k = False"

fun is_dict :: "footer_value \<Rightarrow> bool" where
  "is_dict (Dict _) = True"
| "is_dict (NotADict _) = False"

text \<open>\<^verbatim>\<open>DocumentConfig._validate\<close>: the first check that fails raises.\<close>

definition validate :: "document_config \<Rightarrow> error option" where
  "validate c =
     (if base_font_size c \<le> 0 then Some (ValueError BaseFontSizeNotPositive)
      else if list_ex lt_zero (margins c) then Some (ValueError MarginsNegative)
      else if le_zero (line_spacing c) then Some (ValueError LineSpacingNotPositive)
      else case validate_colors (heading_colors c) of
             Some e \<Rightarrow> Some e
           | None \<Rightarrow>
               if \<not> is_dict (footer_text c) \<or> \<not> has_key (footer_text c) ''odd''
                  \<or> \<not> has_key (footer_text c) ''even''
               then Some (ValueError FooterTextKeys)
               else None)"

text \<open>\<^verbatim>\<open>DocumentConfig.__init__\<close>: the attributes are set, then validated; the
  constructor returns the configuration or raises the error of the validation.\<close>

definition init_config :: "config_args \<Rightarrow> document_config" where
  "init_config a =
     \<lparr>style = arg_style a, paper_size = arg_paper_size a, author = arg_author a,
      date = arg_date a,
      heading_colors = heading_colors_or_default (arg_heading_colors a),
      footer_text = footer_text_or_default (arg_footer_text a),
      font_name = arg_font_name a, base_font_size = arg_base_font_size a,
      margins = arg_margins a, line_spacing = arg_line_spacing a,
      generate_toc = arg_generate_toc a, language = arg_language a,
      center_title = arg_center_title a\<rparr>"

definition DocumentConfig :: "config_args \<Rightarrow> error + document_config" where
  "DocumentConfig a =
     (case validate (init_config a) of
        Some e \<Rightarrow> Inl e
      | None \<Rightarrow> Inr (init_config a))"

subsection \<open>What the validation accepts\<close>

text \<open>A heading colour as the documentation asks for it: a tuple of three integers, each
  from 0 to 255.\<close>

fun is_rgb :: "color_value \<Rightarrow> bool" where
  "is_rgb (Tuple cs) = (length cs = 3 \<and> list_all (\<lambda>c. 0 \<le> c \<and> c \<le> 255) cs)"
| "is_rgb NotATuple = False"

definition footer_ok :: "footer_value \<Rightarrow> bool" where
  "footer_ok v = (is_dict v \<and> has_key v ''odd'' \<and> has_key v ''even'')"

lemma validate_colors_None:
  "validate_colors cs = None \<longleftrightarrow> list_all (\<lambda>lc. is_rgb (snd lc)) cs"
  by (induction cs rule: validate_colors.induct) auto

lemma validate_colors_Some: "validate_colors cs = Some e \<Longrightarrow> \<exists>m. e = ValueError m"
  by (induction cs rule: validate_colors.induct) (auto split: if_splits)

lemma validate_Some: "validate c = Some e \<Longrightarrow> \<exists>m. e = ValueError m"
  by (auto simp: validate_def split: if_splits option.splits dest: validate_colors_Some)

lemma validate_None:
  "validate c = None \<longleftrightarrow>
     0 < base_font_size c \<and> \<not> list_ex lt_zero (margins c) \<and> \<not> le_zero (line_spacing c) \<and>
     list_all (\<lambda>lc. is_rgb (snd lc)) (heading_colors c) \<and>
     is_dict (footer_text c) \<and> has_key (footer_text c) ''odd'' \<and> has_key (footer_text c) ''even''"
  using validate_colors_None [of "heading_colors c"]
  by (auto simp: validate_def split: option.splits)

lemma ge_not_lt: "ge_zero m \<Longrightarrow> \<not> lt_zero m"
  by (cases m) auto

lemma gt_not_le: "gt_zero m \<Longrightarrow> \<not> le_zero m"
  by (cases m) auto

lemma all_ge_no_lt: "list_all ge_zero ms \<Longrightarrow> \<not> list_ex lt_zero ms"
  by (induction ms) (auto dest: ge_not_lt)

lemma default_colors_rgb: "list_all (\<lambda>lc. is_rgb (snd lc)) default_heading_colors"
  by (simp add: default_heading_colors_def)

lemma colors_or_default_rgb:
  "list_all (\<lambda>lc. is_rgb (snd lc)) (heading_colors_or_default h) \<longleftrightarrow>
   (\<forall>cs. h = Some cs \<longrightarrow> list_all (\<lambda>lc. is_rgb (snd lc)) cs)"
  using default_colors_rgb
  by (cases h rule: heading_colors_or_default.cases) auto

lemma default_footer_ok: "footer_ok default_footer_text"
  by (simp add: default_footer_text_def footer_ok_def)

lemma footer_or_default_ok:
  "footer_ok (footer_text_or_default f) \<longleftrightarrow>
   (\<forall>v. f = Some v \<longrightarrow> v = Dict [] \<or> v = NotADict False \<or> footer_ok v)"
  using default_footer_ok
  by (cases f rule: footer_text_or_default.cases) (auto simp: footer_ok_def)

text \<open>
  C2, as the code has it. The constructor returns the configuration when the base font
  size is positive, no margin is negative, the line spacing is positive, every heading
  colour given is a tuple of three integers from 0 to 255, and the footer text given is
  empty or a dictionary with the keys \<^verbatim>\<open>odd\<close> and \<^verbatim>\<open>even\<close>. It raises a \<^verbatim>\<open>ValueError\<close>
  when the base font size is at most zero, a margin is negative, the line spacing is at
  most zero, a heading colour given is no such tuple, or the footer text given is not
  empty and is not a dictionary with both keys. A heading colour dictionary or a footer
  text that is absent or empty is replaced by the default before the validation.
\<close>

theorem config_validation:
  "(0 < arg_base_font_size a \<and> list_all ge_zero (arg_margins a) \<and>
    gt_zero (arg_line_spacing a) \<and>
    (\<forall>cs. arg_heading_colors a = Some cs \<longrightarrow> list_all (\<lambda>lc. is_rgb (snd lc)) cs) \<and>
    (\<forall>v. arg_footer_text a = Some v \<longrightarrow>
       v = Dict [] \<or> v = NotADict False \<or>
       is_dict v \<and> has_key v ''odd'' \<and> has_key v ''even'')
    \<longrightarrow> DocumentConfig a = Inr (init_config a)) \<and>
   (arg_base_font_size a \<le> 0 \<or> list_ex lt_zero (arg_margins a) \<or>
    le_zero (arg_line_spacing a) \<or>
    (\<exists>cs. arg_heading_colors a = Some cs \<and> list_ex (\<lambda>lc. \<not> is_rgb (snd lc)) cs) \<or>
    (\<exists>v. arg_footer_text a = Some v \<and> v \<noteq> Dict [] \<and> v \<noteq> NotADict False \<and>
       \<not> (is_dict v \<and> has_key v ''odd'' \<and> has_key v ''even''))
    \<longrightarrow> (\<exists>m. DocumentConfig a = Inl (ValueError m)))"
proof (intro conjI impI)
  assume ok: "0 < arg_base_font_size a \<and> list_all ge_zero (arg_margins a) \<and>
    gt_zero (arg_line_spacing a) \<and>
    (\<forall>cs. arg_heading_colors a = Some cs \<longrightarrow> list_all (\<lambda>lc. is_rgb (snd lc)) cs) \<and>
    (\<forall>v. arg_footer_text a = Some v \<longrightarrow>
       v = Dict [] \<or> v = NotADict False \<or>
       is_dict v \<and> has_key v ''odd'' \<and> has_key v ''even'')"
  then have "footer_ok (footer_text_or_default (arg_footer_text a))"
    unfolding footer_or_default_ok by (simp add: footer_ok_def)
  moreover from ok
  have "list_all (\<lambda>lc. is_rgb (snd lc)) (heading_colors_or_default (arg_heading_colors a))"
    unfolding colors_or_default_rgb by simp
  ultimately have "validate (init_config a) = None"
    unfolding validate_None using ok
    by (simp add: init_config_def footer_ok_def all_ge_no_lt gt_not_le)
  then show "DocumentConfig a = Inr (init_config a)"
    by (simp add: DocumentConfig_def)
next
  assume bad: "arg_base_font_size a \<le> 0 \<or> list_ex lt_zero (arg_margins a) \<or>
    le_zero (arg_line_spacing a) \<or>
    (\<exists>cs. arg_heading_colors a = Some cs \<and> list_ex (\<lambda>lc. \<not> is_rgb (snd lc)) cs) \<or>
    (\<exists>v. arg_footer_text a = Some v \<and> v \<noteq> Dict [] \<and> v \<noteq> NotADict False \<and>
       \<not> (is_dict v \<and> has_key v ''odd'' \<and> has_key v ''even''))"
  have "validate (init_config a) \<noteq> None"
  proof
    assume "validate (init_config a) = None"
    then have v: "0 < arg_base_font_size a" "\<not> list_ex lt_zero (arg_margins a)"
      "\<not> le_zero (arg_line_spacing a)"
      "list_all (\<lambda>lc. is_rgb (snd lc)) (heading_colors_or_default (arg_heading_colors a))"
      "footer_ok (footer_text_or_default (arg_footer_text a))"
      unfolding validate_None by (simp_all add: init_config_def footer_ok_def)
    from v(4)
    have "\<not> (\<exists>cs. arg_heading_colors a = Some cs \<and> list_ex (\<lambda>lc. \<not> is_rgb (snd lc)) cs)"
      unfolding colors_or_default_rgb by (auto simp: list_ex_iff list_all_iff)
    moreover from v(5)
    have "\<not> (\<exists>v. arg_footer_text a = Some v \<and> v \<noteq> Dict [] \<and> v \<noteq> NotADict False \<and>
       \<not> (is_dict v \<and> has_key v ''odd'' \<and> has_key v ''even''))"
      unfolding footer_or_default_ok by (auto simp: footer_ok_def)
    ultimately show False using bad v(1-3) by auto
  qed
  then obtain e where "validate (init_config a) = Some e" by auto
  moreover from this obtain m where "e = ValueError m" using validate_Some by blast
  ultimately show "\<exists>m. DocumentConfig a = Inl (ValueError m)"
    by (simp add: DocumentConfig_def)
qed

text \<open>The default arguments are accepted; a base font size of zero and a footer text
  with the key \<^verbatim>\<open>odd\<close> alone are refused.\<close>

theorem config_validation_witness:
  "DocumentConfig default_args = Inr (init_config default_args) \<and>
   (\<exists>m. DocumentConfig (default_args\<lparr>arg_base_font_size := 0\<rparr>) = Inl (ValueError m)) \<and>
   (\<exists>m. DocumentConfig (default_args\<lparr>arg_footer_text := Some (Dict [(''odd'', ''x'')])\<rparr>)
      = Inl (ValueError m))"
proof -
  have "DocumentConfig default_args = Inr (init_config default_args)"
    using config_validation [of default_args] by (simp add: default_args_def)
  moreover
  have "\<exists>m. DocumentConfig (default_args\<lparr>arg_base_font_size := 0\<rparr>) = Inl (ValueError m)"
    using config_validation [of "default_args\<lparr>arg_base_font_size := 0\<rparr>"] by simp
  moreover
  have "\<exists>m. DocumentConfig (default_args\<lparr>arg_footer_text := Some (Dict [(''odd'', ''x'')])\<rparr>)
      = Inl (ValueError m)"
    using config_validation
      [of "default_args\<lparr>arg_footer_text := Some (Dict [(''odd'', ''x'')])\<rparr>"]
    by simp
  ultimately show ?thesis by blast
qed

text \<open>The empty dictionary \<^verbatim>\<open>{}\<close> given as footer text has neither key, and the
  constructor accepts it: \<^verbatim>\<open>footer_text or {...}\<close> has put the default in its place.\<close>

theorem empty_footer_text_accepted:
  "DocumentConfig (default_args\<lparr>arg_footer_text := Some (Dict [])\<rparr>) =
     Inr (init_config (default_args\<lparr>arg_footer_text := Some (Dict [])\<rparr>)) \<and>
   \<not> has_key (Dict []) ''odd'' \<and> \<not> has_key (Dict []) ''even''"
  by (simp add: DocumentConfig_def validate_def init_config_def default_args_def
      default_heading_colors_def default_footer_text_def)

section \<open>Double-precision arithmetic\<close>

text \<open>
  The resize step divides and multiplies Python \<^verbatim>\<open>float\<close>s. A float of the model is the
  rational number it stands for, and every operation gives the exact result rounded to
  the nearest number with a significand of 53 bits, a tie going to the even significand.
  The exponent has no bounds in the model: the sizes of a picture are far from the
  overflow and the subnormal numbers of the binary64 format.
\<close>

definition pow2 :: "int \<Rightarrow> rat" where
  "pow2 e = (if 0 \<le> e then 2 ^ nat e else 1 / 2 ^ nat (- e))"

definition round_half_even :: "rat \<Rightarrow> int" where
  "round_half_even y =
     (let f = \<lfloor>y\<rfloor>; r = y - of_int f
      in if r < 1 / 2 then f
         else if 1 / 2 < r then f + 1
         else if even f then f else f + 1)"

text \<open>The exponent of a positive rational \<open>x\<close>: the \<open>e\<close> with \<open>2\<^sup>e \<le> x < 2\<^sup>e\<^sup>+\<^sup>1\<close>, found from
  the bit lengths of the numerator and the denominator.\<close>

definition ilog2 :: "rat \<Rightarrow> int" where
  "ilog2 x =
     (case quotient_of x of (p, q) \<Rightarrow>
        let d = bitlen p - bitlen q in if pow2 d \<le> x then d else d - 1)"

text \<open>Rounding to the nearest float.\<close>

definition fl :: "rat \<Rightarrow> rat" where
  "fl x =
     (if x = 0 then 0
      else let u = pow2 (ilog2 \<bar>x\<bar> - 52)
           in sgn x * of_int (round_half_even (\<bar>x\<bar> / u)) * u)"

text \<open>\<^verbatim>\<open>a / b\<close> on two integers (the quotient, correctly rounded), \<^verbatim>\<open>n * x\<close> on an
  integer and a float (the integer is converted first), and \<^verbatim>\<open>int(x)\<close>, which truncates
  towards zero. The divisor is never zero where the code divides.\<close>

definition py_truediv :: "int \<Rightarrow> int \<Rightarrow> rat" where
  "py_truediv a b = fl (of_int a / of_int b)"

definition py_int_mul_float :: "int \<Rightarrow> rat \<Rightarrow> rat" where
  "py_int_mul_float n x = fl (fl (of_int n) * x)"

definition py_int :: "rat \<Rightarrow> int" where
  "py_int x = (if 0 \<le> x then \<lfloor>x\<rfloor> else \<lceil>x\<rceil>)"

section \<open>The document and the insertion of images\<close>

subsection \<open>Log, paths and the document library\<close>

datatype level = INFO | WARNING | ERROR

type_synonym log = "(level \<times> string) list"




text \<open>\<^verbatim>\<open>m in s\<close> on strings\<close>

fun contains :: "string \<Rightarrow> string \<Rightarrow> bool" where
  "contains [] m = (m = [])"
| "contains (c # cs) m = (startswith (c # cs) m \<or> contains cs m)"

datatype alignment = LEFT | CENTER | RIGHT

text \<open>A picture with its width and height in EMU; a run with its text, the font
  settings and language the code sets, and the picture it may hold; a paragraph with its
  runs, the name of its style, and its format. A length in points is kept as the number
  of points.\<close>

record picture =
  pic_file :: string
  pic_width :: int
  pic_height :: int

record run =
  run_text :: string
  run_font_name :: "string option"
  run_font_size :: "int option"
  run_bold :: "bool option"
  run_lang :: "string option"
  run_picture :: "picture option"

record paragraph_rec =
  par_runs :: "run list"
  par_style :: string
  par_alignment :: "alignment option"
  par_space_before :: "int option"
  par_space_after :: "int option"
  par_line_spacing :: "pyfloat option"

text \<open>\<^verbatim>\<open>para.add_run(text)\<close> makes a run with no setting of its own; \<^verbatim>\<open>para.text\<close> joins
  the texts of the runs; \<^verbatim>\<open>para.clear()\<close> removes the runs and keeps the format;
  \<^verbatim>\<open>para.text = t\<close> clears and adds one run. The library is taken to accept every text
  it is given; \<^verbatim>\<open>p.exists()\<close> is taken to answer and not to raise.\<close>

definition new_run :: "string \<Rightarrow> run" where
  "new_run t =
     \<lparr>run_text = t, run_font_name = None, run_font_size = None, run_bold = None,
      run_lang = None, run_picture = None\<rparr>"

definition par_text :: "paragraph_rec \<Rightarrow> string" where
  "par_text para = concat (map run_text (par_runs para))"

definition par_clear :: "paragraph_rec \<Rightarrow> paragraph_rec" where
  "par_clear para = para\<lparr>par_runs := []\<rparr>"


subsection \<open>Resizing\<close>

text \<open>\<^verbatim>\<open>MAX_IMAGE_WIDTH = Inches(6)\<close>, six times 914400 EMU.\<close>

definition MAX_IMAGE_WIDTH :: int where
  "MAX_IMAGE_WIDTH = 5486400"

text \<open>
  \<^verbatim>\<open>
  if picture.width > self.MAX_IMAGE_WIDTH:
      aspect_ratio = picture.height / picture.width
      picture.width = self.MAX_IMAGE_WIDTH
      picture.height = int(picture.width * aspect_ratio)
  \<close>
\<close>

definition resize_picture :: "int \<times> int \<Rightarrow> int \<times> int" where
  "resize_picture wh =
     (case wh of (width, height) \<Rightarrow>
        if width > MAX_IMAGE_WIDTH then
          let aspect_ratio = py_truediv height width;
              width' = MAX_IMAGE_WIDTH
          in (width', py_int (py_int_mul_float width' aspect_ratio))
        else (width, height))"

subsection \<open>One image\<close>




subsection \<open>All paragraphs\<close>






section \<open>Properties of the placeholders and of the insertion\<close>

subsection \<open>Markers in the temporary content\<close>

text \<open>The number of places of a text at which a marker stands.\<close>

fun occurrences :: "string \<Rightarrow> string \<Rightarrow> nat" where
  "occurrences m [] = 0"
| "occurrences m (c # cs) = (if startswith (c # cs) m then 1 else 0) + occurrences m cs"

lemma contains_occurrences: "m \<noteq> [] \<Longrightarrow> contains s m \<longleftrightarrow> 0 < occurrences m s"
  by (induction s) auto


lemma startswith_append: "startswith (m @ t) m"
  by (induction m) auto





subsection \<open>The references are taken from the front\<close>






subsection \<open>Images that cannot be inserted\<close>









subsection \<open>The prefix of the image folder\<close>









definition example_config :: document_config where
  "example_config = init_config default_args"






subsection \<open>Placeholders produced and consumed\<close>






section \<open>Table cells\<close>

text \<open>
  The cell of a table is the element \<^verbatim>\<open>w:tc\<close> of the document tree. An element has a
  tag, its attributes in the order they were set, and its children. Tags and attribute
  names are written with their prefix, \<^verbatim>\<open>w:tcPr\<close> for what \<^verbatim>\<open>qn('w:tcPr')\<close> gives.
\<close>

datatype xml = Element (tag: string) (attrib: "(string \<times> string) list") (children: "xml list")

text \<open>\<^verbatim>\<open>OxmlElement(tag)\<close>: a new element with no attribute and no child.\<close>

definition OxmlElement :: "string \<Rightarrow> xml" where
  "OxmlElement t = Element t [] []"

text \<open>\<^verbatim>\<open>element.set(key, value)\<close>\<close>

fun xml_set :: "string \<Rightarrow> string \<Rightarrow> xml \<Rightarrow> xml" where
  "xml_set k v (Element t as cs) =
     Element t (if k \<in> set (map fst as) then map (\<lambda>(k', v'). if k' = k then (k', v) else (k', v')) as
                else as @ [(k, v)]) cs"

text \<open>\<^verbatim>\<open>element.append(child)\<close>\<close>

fun xml_append :: "xml \<Rightarrow> xml \<Rightarrow> xml" where
  "xml_append child (Element t as cs) = Element t as (cs @ [child])"

text \<open>\<^verbatim>\<open>element.find(tag)\<close>: the first child with the tag, or \<^verbatim>\<open>None\<close>.\<close>

definition xml_find :: "xml \<Rightarrow> string \<Rightarrow> xml option" where
  "xml_find e t = find (\<lambda>c. tag c = t) (children e)"

text \<open>The code changes the properties element in place, inside the cell: in the model
  the first child with the tag is replaced by the changed element.\<close>

fun replace_first :: "string \<Rightarrow> xml \<Rightarrow> xml list \<Rightarrow> xml list" where
  "replace_first t new [] = []"
| "replace_first t new (c # cs) = (if tag c = t then new # cs else c # replace_first t new cs)"

text \<open>\<^verbatim>\<open>tc.get_or_add_tcPr()\<close> of \<^verbatim>\<open>python-docx\<close>: the cell keeps its \<^verbatim>\<open>w:tcPr\<close> child, or
  gets an empty one as its first child.\<close>

fun get_or_add_tcPr :: "xml \<Rightarrow> xml" where
  "get_or_add_tcPr (Element t as cs) =
     (case find (\<lambda>c. tag c = ''w:tcPr'') cs of
        Some tcPr \<Rightarrow> Element t as cs
      | None \<Rightarrow> Element t as (OxmlElement ''w:tcPr'' # cs))"

text \<open>
  \<^verbatim>\<open>
  edge = OxmlElement(f'w:{border}')
  edge.set(qn('w:val'), 'single')
  edge.set(qn('w:sz'), '4')
  edge.set(qn('w:space'), '0')
  edge.set(qn('w:color'), 'auto')
  \<close>
\<close>

definition border_edge :: "string \<Rightarrow> xml" where
  "border_edge border =
     xml_set ''w:color'' ''auto''
       (xml_set ''w:space'' ''0''
          (xml_set ''w:sz'' ''4''
             (xml_set ''w:val'' ''single'' (OxmlElement (''w:'' @ border)))))"

text \<open>The element \<^verbatim>\<open>w:tcBorders\<close> after the loop over
  \<^verbatim>\<open>['top', 'left', 'bottom', 'right']\<close> has appended the four edges.\<close>

definition new_tcBorders :: xml where
  "new_tcBorders =
     foldl (\<lambda>tcBorders border. xml_append (border_edge border) tcBorders)
       (OxmlElement ''w:tcBorders'') [''top'', ''left'', ''bottom'', ''right'']"

text \<open>
  \<^verbatim>\<open>
  tc = cell._tc
  tcPr = tc.get_or_add_tcPr()
  existing_borders = tcPr.find(qn('w:tcBorders'))
  if existing_borders is not None:
      return
  tcBorders = OxmlElement('w:tcBorders')
  tcPr.append(tcBorders)
  for border in ['top', 'left', 'bottom', 'right']: ...
  \<close>
  The model takes the cell and returns the cell as the call leaves it.
\<close>

definition set_cell_borders :: "xml \<Rightarrow> xml" where
  "set_cell_borders tc =
     (let tc1 = get_or_add_tcPr tc
      in case xml_find tc1 ''w:tcPr'' of
           None \<Rightarrow> tc1
         | Some tcPr \<Rightarrow>
             (case xml_find tcPr ''w:tcBorders'' of
                Some existing_borders \<Rightarrow> tc1
              | None \<Rightarrow>
                  Element (tag tc1) (attrib tc1)
                    (replace_first ''w:tcPr'' (xml_append new_tcBorders tcPr) (children tc1))))"

subsection \<open>Borders are set once\<close>

text \<open>The properties of the cell hold a \<^verbatim>\<open>w:tcBorders\<close> element.\<close>

definition has_borders :: "xml \<Rightarrow> bool" where
  "has_borders tc =
     (case xml_find tc ''w:tcPr'' of
        None \<Rightarrow> False
      | Some tcPr \<Rightarrow> xml_find tcPr ''w:tcBorders'' \<noteq> None)"

lemma find_replace_first:
  "find (\<lambda>c. tag c = t) cs = Some old \<Longrightarrow> tag new = t \<Longrightarrow>
   find (\<lambda>c. tag c = t) (replace_first t new cs) = Some new"
  by (induction cs) (auto split: if_splits)

lemma tag_xml_append [simp]: "tag (xml_append c e) = tag e"
  by (cases e) simp

lemma children_xml_append [simp]: "children (xml_append c e) = children e @ [c]"
  by (cases e) simp

lemma attrib_xml_append [simp]: "attrib (xml_append c e) = attrib e"
  by (cases e) simp

lemma tag_new_tcBorders: "tag new_tcBorders = ''w:tcBorders''"
  by (simp add: new_tcBorders_def OxmlElement_def)

lemma find_tag: "find (\<lambda>c. tag c = t) cs = Some x \<Longrightarrow> tag x = t"
  by (induction cs) (auto split: if_splits)

lemma find_append_new:
  "find (\<lambda>c. tag c = t) cs = None \<Longrightarrow> tag x = t \<Longrightarrow> find (\<lambda>c. tag c = t) (cs @ [x]) = Some x"
  by (induction cs) (auto split: if_splits)

lemma set_cell_borders_unchanged:
  assumes "has_borders tc"
  shows "set_cell_borders tc = tc"
proof -
  obtain t as cs where tc: "tc = Element t as cs" by (cases tc)
  from assms obtain tcPr where f: "find (\<lambda>c. tag c = ''w:tcPr'') cs = Some tcPr"
    and b: "xml_find tcPr ''w:tcBorders'' \<noteq> None"
    unfolding has_borders_def xml_find_def tc by (auto split: option.splits)
  from f have "get_or_add_tcPr tc = tc" by (simp add: tc)
  with f b show ?thesis
    by (auto simp: set_cell_borders_def xml_find_def tc split: option.splits)
qed

lemma set_cell_borders_has_borders: "has_borders (set_cell_borders tc)"
proof (cases "has_borders tc")
  case True
  then show ?thesis by (simp add: set_cell_borders_unchanged)
next
  case False
  obtain t as cs where tc: "tc = Element t as cs" by (cases tc)
  have "\<exists>cs1 tcPr. get_or_add_tcPr tc = Element t as cs1 \<and>
          find (\<lambda>c. tag c = ''w:tcPr'') cs1 = Some tcPr \<and>
          xml_find tcPr ''w:tcBorders'' = None"
  proof (cases "find (\<lambda>c. tag c = ''w:tcPr'') cs")
    case None
    then show ?thesis
      by (simp add: tc OxmlElement_def xml_find_def)
  next
    case (Some p)
    with False show ?thesis
      by (simp add: tc has_borders_def xml_find_def)
  qed
  then obtain cs1 tcPr where tc1: "get_or_add_tcPr tc = Element t as cs1"
    and f: "find (\<lambda>c. tag c = ''w:tcPr'') cs1 = Some tcPr"
    and nb: "xml_find tcPr ''w:tcBorders'' = None"
    by blast
  have s: "set_cell_borders tc =
        Element t as (replace_first ''w:tcPr'' (xml_append new_tcBorders tcPr) cs1)"
    using f nb tc1 by (simp add: set_cell_borders_def xml_find_def)
  have "tag (xml_append new_tcBorders tcPr) = ''w:tcPr''"
    using find_tag [OF f] by simp
  from find_replace_first [OF f this]
  have "xml_find (set_cell_borders tc) ''w:tcPr'' = Some (xml_append new_tcBorders tcPr)"
    unfolding s xml_find_def by simp
  moreover have "xml_find (xml_append new_tcBorders tcPr) ''w:tcBorders'' = Some new_tcBorders"
    using nb find_append_new [of "''w:tcBorders''" "children tcPr" new_tcBorders]
    unfolding xml_find_def by (simp add: tag_new_tcBorders)
  ultimately show ?thesis by (simp add: has_borders_def)
qed

lemma set_cell_borders_idem: "set_cell_borders (set_cell_borders tc) = set_cell_borders tc"
  using set_cell_borders_unchanged [OF set_cell_borders_has_borders] .


lemma filter_replace_first:
  "tag new = t \<Longrightarrow>
   filter (\<lambda>c. tag c \<noteq> t) (replace_first t new cs) = filter (\<lambda>c. tag c \<noteq> t) cs"
  by (induction cs) auto

text \<open>An edge with a single line: the element the loop builds.\<close>

definition single_edge :: "string \<Rightarrow> xml" where
  "single_edge t =
     Element t [(''w:val'', ''single''), (''w:sz'', ''4''), (''w:space'', ''0''),
                (''w:color'', ''auto'')] []"

lemma new_tcBorders_eq:
  "new_tcBorders =
     Element ''w:tcBorders'' []
       [single_edge ''w:top'', single_edge ''w:left'', single_edge ''w:bottom'',
        single_edge ''w:right'']"
  by (simp add: new_tcBorders_def border_edge_def OxmlElement_def single_edge_def)

lemma set_cell_borders_added:
  assumes "\<not> has_borders tc"
  shows "\<exists>tcPr. xml_find (get_or_add_tcPr tc) ''w:tcPr'' = Some tcPr \<and>
           xml_find (set_cell_borders tc) ''w:tcPr'' =
             Some (Element ''w:tcPr'' (attrib tcPr) (children tcPr @ [new_tcBorders])) \<and>
           length (filter (\<lambda>c. tag c = ''w:tcBorders'') (children tcPr @ [new_tcBorders])) = 1 \<and>
           tag (set_cell_borders tc) = tag tc \<and> attrib (set_cell_borders tc) = attrib tc \<and>
           filter (\<lambda>c. tag c \<noteq> ''w:tcPr'') (children (set_cell_borders tc)) =
             filter (\<lambda>c. tag c \<noteq> ''w:tcPr'') (children tc)"
proof -
  obtain t as cs where tc: "tc = Element t as cs" by (cases tc)
  have "\<exists>cs1 tcPr. get_or_add_tcPr tc = Element t as cs1 \<and>
          find (\<lambda>c. tag c = ''w:tcPr'') cs1 = Some tcPr \<and>
          xml_find tcPr ''w:tcBorders'' = None \<and>
          filter (\<lambda>c. tag c \<noteq> ''w:tcPr'') cs1 = filter (\<lambda>c. tag c \<noteq> ''w:tcPr'') cs"
  proof (cases "find (\<lambda>c. tag c = ''w:tcPr'') cs")
    case None
    then show ?thesis
      by (simp add: tc OxmlElement_def xml_find_def)
  next
    case (Some p)
    with assms show ?thesis
      by (simp add: tc has_borders_def xml_find_def)
  qed
  then obtain cs1 tcPr where tc1: "get_or_add_tcPr tc = Element t as cs1"
    and f: "find (\<lambda>c. tag c = ''w:tcPr'') cs1 = Some tcPr"
    and nb: "xml_find tcPr ''w:tcBorders'' = None"
    and o: "filter (\<lambda>c. tag c \<noteq> ''w:tcPr'') cs1 = filter (\<lambda>c. tag c \<noteq> ''w:tcPr'') cs"
    by blast
  have s: "set_cell_borders tc =
        Element t as (replace_first ''w:tcPr'' (xml_append new_tcBorders tcPr) cs1)"
    using f nb tc1 by (simp add: set_cell_borders_def xml_find_def)
  have tg: "tag tcPr = ''w:tcPr''" using find_tag [OF f] .
  then have tg': "tag (xml_append new_tcBorders tcPr) = ''w:tcPr''" by simp
  have e: "xml_append new_tcBorders tcPr =
        Element ''w:tcPr'' (attrib tcPr) (children tcPr @ [new_tcBorders])"
    using tg by (cases tcPr) simp
  have 1: "xml_find (get_or_add_tcPr tc) ''w:tcPr'' = Some tcPr"
    using f tc1 by (simp add: xml_find_def)
  have 2: "xml_find (set_cell_borders tc) ''w:tcPr'' =
             Some (Element ''w:tcPr'' (attrib tcPr) (children tcPr @ [new_tcBorders]))"
    using find_replace_first [OF f tg'] unfolding s xml_find_def e by simp
  have "filter (\<lambda>c. tag c = ''w:tcBorders'') (children tcPr) = []"
    using nb unfolding xml_find_def by (simp add: find_None_iff filter_empty_conv)
  then have 3: "length (filter (\<lambda>c. tag c = ''w:tcBorders'') (children tcPr @ [new_tcBorders])) = 1"
    by (simp add: tag_new_tcBorders)
  have 4: "filter (\<lambda>c. tag c \<noteq> ''w:tcPr'') (children (set_cell_borders tc)) =
             filter (\<lambda>c. tag c \<noteq> ''w:tcPr'') (children tc)"
    unfolding s using filter_replace_first [OF tg', of cs1] o by (simp add: tc)
  from 1 2 3 4 s show ?thesis by (auto simp: tc)
qed

text \<open>
  C10. A cell whose properties hold a \<^verbatim>\<open>w:tcBorders\<close> element is left as it is. Any other
  cell keeps its tag, its attributes and its other children, and its properties (the ones
  it had, or new empty ones) get one more child at the end, the only \<^verbatim>\<open>w:tcBorders\<close>
  among them, which holds the four single edges top, left, bottom and right. Setting
  the borders twice gives the same cell as setting them once.
\<close>

theorem set_cell_borders_idempotent:
  "(has_borders tc \<longrightarrow> set_cell_borders tc = tc) \<and>
   (\<not> has_borders tc \<longrightarrow>
      (\<exists>tcPr. xml_find (get_or_add_tcPr tc) ''w:tcPr'' = Some tcPr \<and>
         xml_find (set_cell_borders tc) ''w:tcPr'' =
           Some (Element ''w:tcPr'' (attrib tcPr) (children tcPr @ [new_tcBorders])) \<and>
         length (filter (\<lambda>c. tag c = ''w:tcBorders'') (children tcPr @ [new_tcBorders])) = 1 \<and>
         tag (set_cell_borders tc) = tag tc \<and> attrib (set_cell_borders tc) = attrib tc \<and>
         filter (\<lambda>c. tag c \<noteq> ''w:tcPr'') (children (set_cell_borders tc)) =
           filter (\<lambda>c. tag c \<noteq> ''w:tcPr'') (children tc))) \<and>
   new_tcBorders =
     Element ''w:tcBorders'' []
       [single_edge ''w:top'', single_edge ''w:left'', single_edge ''w:bottom'',
        single_edge ''w:right''] \<and>
   set_cell_borders (set_cell_borders tc) = set_cell_borders tc"
  using set_cell_borders_unchanged set_cell_borders_added new_tcBorders_eq
    set_cell_borders_idem
  by blast

text \<open>A cell with one paragraph and no properties.\<close>

definition example_cell :: xml where
  "example_cell = Element ''w:tc'' [] [Element ''w:p'' [] []]"

theorem set_cell_borders_idempotent_witness:
  "set_cell_borders example_cell =
     Element ''w:tc'' [] [Element ''w:tcPr'' [] [new_tcBorders], Element ''w:p'' [] []] \<and>
   set_cell_borders (set_cell_borders example_cell) = set_cell_borders example_cell"
proof -
  note t = set_cell_borders_idempotent [of example_cell]
  note t' = set_cell_borders_idempotent [of "set_cell_borders example_cell"]
  have v: "set_cell_borders example_cell =
     Element ''w:tc'' [] [Element ''w:tcPr'' [] [new_tcBorders], Element ''w:p'' [] []]"
    by (simp add: set_cell_borders_def example_cell_def xml_find_def OxmlElement_def)
  have nb: "\<not> has_borders example_cell"
    by (simp add: has_borders_def example_cell_def xml_find_def)
  have hb: "has_borders (set_cell_borders example_cell)"
    unfolding v by (simp add: has_borders_def xml_find_def tag_new_tcBorders)
  from t nb have "xml_find (set_cell_borders example_cell) ''w:tcPr'' =
      Some (Element ''w:tcPr'' [] [new_tcBorders])"
    by (auto simp: example_cell_def xml_find_def OxmlElement_def)
  moreover from t' hb
  have "set_cell_borders (set_cell_borders example_cell) = set_cell_borders example_cell"
    by blast
  ultimately show ?thesis using v by simp
qed

section \<open>One conversion and its temporary files\<close>

text \<open>
  \<^verbatim>\<open>convert\<close> works on the file system and runs \<^verbatim>\<open>pandoc\<close>. The model keeps the set of
  the paths that exist, files and directories, and takes as a parameter what the world
  answers: how \<^verbatim>\<open>pathlib\<close> joins and splits paths, whether a directory can be made, what
  reading a file gives, whether a file can be written, how the subprocess ends, whether
  a step of the post-processing raises, and whether a file can be deleted. A write that
  succeeds makes the file exist and one that fails changes nothing; \<^verbatim>\<open>pandoc\<close> that
  completes has written the output file.
\<close>


datatype pandoc_outcome = Completed | CalledProcessError string | SubprocessException string

record system =
  sys_join :: "string \<Rightarrow> string \<Rightarrow> string"
  sys_name :: "string \<Rightarrow> string"
  sys_parent :: "string \<Rightarrow> string"
  sys_suffix :: "string \<Rightarrow> string"
  mkdir_ok :: "string \<Rightarrow> bool"
  read_text :: "string \<Rightarrow> string option"
  write_ok :: "string \<Rightarrow> bool"
  run_pandoc :: "string list \<Rightarrow> pandoc_outcome"
  post_process :: "string \<Rightarrow> string \<Rightarrow> image_ref list \<Rightarrow> string \<Rightarrow> string option"
  unlink_ok :: "string \<Rightarrow> bool"

type_synonym files = "string set"



text \<open>
  \<^verbatim>\<open>
  try:
      if lua_path.exists():
          lua_path.unlink()
  except Exception as e:
      logger.warning(f"Could not delete temporary Lua file: {e}")
  \<close>
  and the same for the temporary Markdown file. The message of the exception is left
  out of the warning.
\<close>

definition cleanup_lua_script :: "system \<Rightarrow> files \<Rightarrow> string \<Rightarrow> files \<times> log" where
  "cleanup_lua_script s fs lua_path =
     (if unlink_ok s lua_path then (fs - {lua_path}, [])
      else (fs, [(WARNING, ''Could not delete temporary Lua file'')]))"










subsection \<open>What is left of the temporary files\<close>

lemma cleanup_lua_script_subset: "fst (cleanup_lua_script s fs p) \<subseteq> fs"
  by (auto simp: cleanup_lua_script_def)

lemma cleanup_lua_script_gone: "unlink_ok s p \<Longrightarrow> p \<notin> fst (cleanup_lua_script s fs p)"
  by (simp add: cleanup_lua_script_def)

lemma cleanup_lua_script_keeps:
  "q \<in> fs \<Longrightarrow> \<not> unlink_ok s q \<Longrightarrow> q \<in> fst (cleanup_lua_script s fs p)"
  by (auto simp: cleanup_lua_script_def)


















section \<open>Named styles\<close>

text \<open>A style of the document, with the settings the code writes: font, colour,
  spacing, the style it is based on, whether its paragraph properties hold a numbering,
  and the language of its runs.\<close>

record docx_style =
  st_font_name :: "string option"
  st_font_size :: "int option"
  st_bold :: "bool option"
  st_italic :: "bool option"
  st_color :: "(int \<times> int \<times> int) option"
  st_space_before :: "int option"
  st_space_after :: "int option"
  st_line_spacing :: "pyfloat option"
  st_base_style :: "string option"
  st_numbered :: bool
  st_superscript :: "bool option"
  st_lang :: "string option"

text \<open>\<^verbatim>\<open>doc.styles\<close>: the styles by name. \<^verbatim>\<open>doc.styles[name]\<close> raises \<^verbatim>\<open>KeyError\<close> when
  the document has no style of that name; a style is changed in place.\<close>

type_synonym styles = "(string \<times> docx_style) list"

definition get_style :: "styles \<Rightarrow> string \<Rightarrow> error + docx_style" where
  "get_style sts name = (case map_of sts name of None \<Rightarrow> Inl (KeyError name) | Some st \<Rightarrow> Inr st)"

definition set_style :: "string \<Rightarrow> docx_style \<Rightarrow> styles \<Rightarrow> styles" where
  "set_style name st sts = map (\<lambda>(n, old). if n = name then (n, st) else (n, old)) sts"

text \<open>One entry of the dictionaries \<^verbatim>\<open>styles_to_configure\<close> and \<^verbatim>\<open>heading_styles\<close>;
  the keys \<^verbatim>\<open>color\<close> and \<^verbatim>\<open>italic\<close> are there for the headings only.\<close>

record style_config =
  sc_font_size :: int
  sc_font_name :: string
  sc_bold :: bool
  sc_space_before :: int
  sc_space_after :: int
  sc_line_spacing :: pyfloat
  sc_color :: "color_value option"
  sc_italic :: "bool option"

text \<open>\<^verbatim>\<open>RGBColor(*color)\<close>: three integers from 0 to 255, or an exception.\<close>

fun RGBColor :: "color_value \<Rightarrow> error + (int \<times> int \<times> int)" where
  "RGBColor (Tuple [r, g, b]) =
     (if list_all (\<lambda>c. 0 \<le> c \<and> c \<le> 255) [r, g, b] then Inr (r, g, b)
      else Inl (ValueError RGBValuesOutOfRange))"
| "RGBColor _ = Inl TypeError"

text \<open>The sizes of \<^verbatim>\<open>DocumentConfig\<close>, in points.\<close>

definition DEFAULT_TITLE_SIZE :: int where
  "DEFAULT_TITLE_SIZE = 24"

definition DEFAULT_HEADING_1_SIZE :: int where
  "DEFAULT_HEADING_1_SIZE = 18"

definition DEFAULT_HEADING_2_SIZE :: int where
  "DEFAULT_HEADING_2_SIZE = 16"

definition DEFAULT_HEADING_3_SIZE :: int where
  "DEFAULT_HEADING_3_SIZE = 14"

text \<open>The dictionary of \<^verbatim>\<open>_configure_standard_styles\<close>, in its order.\<close>

definition standard_styles :: "document_config \<Rightarrow> (string \<times> style_config) list" where
  "standard_styles cfg =
     [(''Normal'',
       \<lparr>sc_font_size = base_font_size cfg, sc_font_name = font_name cfg, sc_bold = False,
        sc_space_before = 0, sc_space_after = 0, sc_line_spacing = line_spacing cfg,
        sc_color = None, sc_italic = None\<rparr>),
      (''Title'',
       \<lparr>sc_font_size = DEFAULT_TITLE_SIZE, sc_font_name = font_name cfg, sc_bold = True,
        sc_space_before = 12, sc_space_after = 12, sc_line_spacing = Fin 1,
        sc_color = None, sc_italic = None\<rparr>)]"

text \<open>\<^verbatim>\<open>self.config.heading_colors.get(level, (0, 0, 0))\<close>\<close>

definition heading_color :: "document_config \<Rightarrow> int \<Rightarrow> color_value" where
  "heading_color cfg level =
     (case map_of (heading_colors cfg) level of None \<Rightarrow> Tuple [0, 0, 0] | Some c \<Rightarrow> c)"

text \<open>The dictionary of \<^verbatim>\<open>_configure_heading_styles\<close>, in its order.\<close>

definition heading_styles :: "document_config \<Rightarrow> (string \<times> style_config) list" where
  "heading_styles cfg =
     [(''Heading 1'',
       \<lparr>sc_font_size = DEFAULT_HEADING_1_SIZE, sc_font_name = font_name cfg, sc_bold = True,
        sc_space_before = 18, sc_space_after = 12, sc_line_spacing = Fin 1,
        sc_color = Some (heading_color cfg 1), sc_italic = Some False\<rparr>),
      (''Heading 2'',
       \<lparr>sc_font_size = DEFAULT_HEADING_2_SIZE, sc_font_name = font_name cfg, sc_bold = True,
        sc_space_before = 16, sc_space_after = 10, sc_line_spacing = Fin 1,
        sc_color = Some (heading_color cfg 2), sc_italic = Some False\<rparr>),
      (''Heading 3'',
       \<lparr>sc_font_size = DEFAULT_HEADING_3_SIZE, sc_font_name = font_name cfg, sc_bold = True,
        sc_space_before = 14, sc_space_after = 8, sc_line_spacing = Fin 1,
        sc_color = Some (heading_color cfg 3), sc_italic = Some True\<rparr>)]"

text \<open>\<^verbatim>\<open>logger.warning(f"Style '{style_name}' not found")\<close>\<close>

definition style_not_found :: "string \<Rightarrow> level \<times> string" where
  "style_not_found name = (WARNING, ''Style '' @ [CHR 0x27] @ name @ [CHR 0x27] @ '' not found'')"

text \<open>The body of the \<^verbatim>\<open>try\<close> block of \<^verbatim>\<open>_apply_style_configurations\<close> after the
  lookup: font, italic, colour, paragraph format and, for a heading, no base style and no
  numbering.\<close>

definition configure_style :: "style_config \<Rightarrow> bool \<Rightarrow> docx_style \<Rightarrow> error + docx_style" where
  "configure_style c is_heading st =
     (let st1 = st\<lparr>st_font_name := Some (sc_font_name c), st_font_size := Some (sc_font_size c),
                   st_bold := Some (sc_bold c)\<rparr>;
          st2 = (if sc_italic c = Some True then st1\<lparr>st_italic := Some True\<rparr> else st1)
      in case (case sc_color c of
                 None \<Rightarrow> Inr st2
               | Some v \<Rightarrow>
                   (case RGBColor v of
                      Inl err \<Rightarrow> Inl err
                    | Inr rgb \<Rightarrow> Inr (st2\<lparr>st_color := Some rgb\<rparr>))) of
           Inl err \<Rightarrow> Inl err
         | Inr st3 \<Rightarrow>
             let st4 = st3\<lparr>st_space_before := Some (sc_space_before c),
                           st_space_after := Some (sc_space_after c),
                           st_line_spacing := Some (sc_line_spacing c)\<rparr>
             in Inr (if is_heading then st4\<lparr>st_base_style := None, st_numbered := False\<rparr>
                     else st4))"

text \<open>
  \<^verbatim>\<open>
  for style_name, config in styles_config.items():
      try:
          style = doc.styles[style_name]
          ...
      except KeyError:
          logger.warning(f"Style '{style_name}' not found")
  \<close>
  Only the \<^verbatim>\<open>KeyError\<close> is caught.
\<close>

fun apply_style_configurations ::
  "styles \<Rightarrow> (string \<times> style_config) list \<Rightarrow> bool \<Rightarrow> error + (styles \<times> log)" where
  "apply_style_configurations sts [] is_heading = Inr (sts, [])"
| "apply_style_configurations sts ((style_name, c) # rest) is_heading =
     (case get_style sts style_name of
        Inl (KeyError k) \<Rightarrow>
          (case apply_style_configurations sts rest is_heading of
             Inl err \<Rightarrow> Inl err
           | Inr (sts', lg) \<Rightarrow> Inr (sts', style_not_found style_name # lg))
      | Inl err \<Rightarrow> Inl err
      | Inr st \<Rightarrow>
          (case configure_style c is_heading st of
             Inl err \<Rightarrow> Inl err
           | Inr st' \<Rightarrow> apply_style_configurations (set_style style_name st' sts) rest is_heading))"

subsection \<open>The title block\<close>

text \<open>The title paragraph once the style \<^verbatim>\<open>Title\<close> was found: the style is set, the
  runs are replaced by one bold run of 24 points with the title, and the paragraph is
  centred if the configuration says so.\<close>

definition style_title_paragraph :: "document_config \<Rightarrow> string \<Rightarrow> paragraph_rec \<Rightarrow> paragraph_rec" where
  "style_title_paragraph cfg document_title para =
     (let para1 = (par_clear (para\<lparr>par_style := ''Title''\<rparr>))
                    \<lparr>par_runs := [(new_run document_title)
                        \<lparr>run_font_name := Some (font_name cfg),
                         run_font_size := Some DEFAULT_TITLE_SIZE,
                         run_bold := Some True\<rparr>]\<rparr>
      in if center_title cfg then para1\<lparr>par_alignment := Some CENTER\<rparr> else para1)"

text \<open>The two paragraphs after the title, author and date: the text is kept in one run
  with the base font.\<close>

definition style_author_date_paragraph :: "document_config \<Rightarrow> paragraph_rec \<Rightarrow> paragraph_rec" where
  "style_author_date_paragraph cfg para =
     (let text = par_text para;
          para1 = (par_clear para)
                    \<lparr>par_runs := [(new_run text)
                        \<lparr>run_font_name := Some (font_name cfg),
                         run_font_size := Some (base_font_size cfg),
                         run_bold := Some False\<rparr>]\<rparr>
      in if center_title cfg then para1\<lparr>par_alignment := Some CENTER\<rparr> else para1)"

text \<open>
  The loop of \<^verbatim>\<open>_style_main_title\<close>, at index \<open>i\<close>; \<open>title_index\<close> is \<open>None\<close> as long as
  \<^verbatim>\<open>title_found\<close> is false.
  \<^verbatim>\<open>
  for i, para in enumerate(doc.paragraphs):
      if para.text == document_title and not title_found:
          para.style = doc.styles['Title']
          ...
      elif title_found and i in [title_index + 1, title_index + 2]:
          ...
      elif title_found and i > title_index + 2:
          break
  \<close>
  The lookup \<^verbatim>\<open>doc.styles['Title']\<close> stands in no \<^verbatim>\<open>try\<close> block.
\<close>

fun style_title_loop ::
  "document_config \<Rightarrow> styles \<Rightarrow> string \<Rightarrow> nat \<Rightarrow> nat option \<Rightarrow> paragraph_rec list \<Rightarrow>
   error + paragraph_rec list" where
  "style_title_loop cfg sts document_title i title_index [] = Inr []"
| "style_title_loop cfg sts document_title i title_index (para # rest) =
     (if par_text para = document_title \<and> title_index = None then
        (case get_style sts ''Title'' of
           Inl err \<Rightarrow> Inl err
         | Inr title_style \<Rightarrow>
             (case style_title_loop cfg sts document_title (Suc i) (Some i) rest of
                Inl err \<Rightarrow> Inl err
              | Inr rest' \<Rightarrow> Inr (style_title_paragraph cfg document_title para # rest')))
      else if title_index \<noteq> None \<and> (i = the title_index + 1 \<or> i = the title_index + 2) then
        (case style_title_loop cfg sts document_title (Suc i) title_index rest of
           Inl err \<Rightarrow> Inl err
         | Inr rest' \<Rightarrow> Inr (style_author_date_paragraph cfg para # rest'))
      else if title_index \<noteq> None \<and> i > the title_index + 2 then
        Inr (para # rest)
      else
        (case style_title_loop cfg sts document_title (Suc i) title_index rest of
           Inl err \<Rightarrow> Inl err
         | Inr rest' \<Rightarrow> Inr (para # rest')))"

definition style_main_title ::
  "document_config \<Rightarrow> styles \<Rightarrow> paragraph_rec list \<Rightarrow> string \<Rightarrow> error + paragraph_rec list" where
  "style_main_title cfg sts paras document_title =
     style_title_loop cfg sts document_title 0 None paras"


subsection \<open>Footnotes\<close>

definition DEFAULT_FOOTNOTE_FONT_SIZE :: int where
  "DEFAULT_FOOTNOTE_FONT_SIZE = 10"

text \<open>A paragraph of a footnote: no space before and after, single line spacing, and
  the language on every run.\<close>

definition format_footnote_paragraph :: "document_config \<Rightarrow> paragraph_rec \<Rightarrow> paragraph_rec" where
  "format_footnote_paragraph cfg p =
     p\<lparr>par_space_before := Some 0, par_space_after := Some 0, par_line_spacing := Some (Fin 1),
       par_runs := map (\<lambda>r. r\<lparr>run_lang := Some (language cfg)\<rparr>) (par_runs p)\<rparr>"

definition footnote_style_not_found :: "string \<Rightarrow> level \<times> string" where
  "footnote_style_not_found name = (WARNING, ''Footnote style not found: '' @ name)"

text \<open>
  \<^verbatim>\<open>_process_footnotes\<close>: the two footnote styles are looked up and set, the language is
  put on the text style, and the paragraphs of the footnotes are formatted when the
  document part has footnotes (\<open>None\<close> when it has not). The whole body stands in a
  \<^verbatim>\<open>try\<close> block that catches \<^verbatim>\<open>KeyError\<close> and logs a warning; what was set before the
  failing lookup stays set. The warning names the style.
\<close>

definition process_footnotes ::
  "document_config \<Rightarrow> styles \<Rightarrow> paragraph_rec list option \<Rightarrow>
   styles \<times> paragraph_rec list option \<times> log" where
  "process_footnotes cfg sts footnotes =
     (case get_style sts ''Footnote Text'' of
        Inl err \<Rightarrow> (sts, footnotes, [footnote_style_not_found ''Footnote Text''])
      | Inr text_style \<Rightarrow>
          let style1 = text_style\<lparr>st_font_name := Some (font_name cfg),
                             st_font_size := Some DEFAULT_FOOTNOTE_FONT_SIZE,
                             st_space_before := Some 0, st_space_after := Some 0,
                             st_line_spacing := Some (Fin 1)\<rparr>;
              sts1 = set_style ''Footnote Text'' style1 sts
          in case get_style sts1 ''Footnote Reference'' of
               Inl err \<Rightarrow> (sts1, footnotes, [footnote_style_not_found ''Footnote Reference''])
             | Inr ref_style \<Rightarrow>
                 let ref_style1 = ref_style\<lparr>st_font_name := Some (font_name cfg),
                                            st_font_size := Some DEFAULT_FOOTNOTE_FONT_SIZE,
                                            st_superscript := Some True\<rparr>;
                     sts2 = set_style ''Footnote Reference'' ref_style1 sts1;
                     sts3 = (case get_style sts2 ''Footnote Text'' of
                               Inl err \<Rightarrow> sts2
                             | Inr st \<Rightarrow>
                                 set_style ''Footnote Text''
                                   (st\<lparr>st_lang := Some (language cfg)\<rparr>) sts2)
                 in (sts3, map_option (map (format_footnote_paragraph cfg)) footnotes, []))"

subsection \<open>A missing style\<close>

lemma apply_style_configurations_missing:
  assumes "map_of sts name = None"
  shows "apply_style_configurations sts [(name, c)] h = Inr (sts, [style_not_found name])"
  using assms by (simp add: get_style_def)

lemma configure_style_ok:
  assumes "\<forall>v. sc_color c = Some v \<longrightarrow> is_rgb v"
  shows "\<exists>st'. configure_style c h st = Inr st'"
proof (cases "sc_color c")
  case None
  then show ?thesis by (simp add: configure_style_def Let_def)
next
  case (Some v)
  with assms have "is_rgb v" by simp
  then obtain cs where v: "v = Tuple cs" and l: "length cs = 3"
    and a: "list_all (\<lambda>c. 0 \<le> c \<and> c \<le> 255) cs"
    by (cases v) auto
  from l obtain r g b where cs: "cs = [r, g, b]"
    by (auto simp: length_Suc_conv numeral_3_eq_3)
  with a v have "RGBColor v = Inr (r, g, b)" by simp
  with Some show ?thesis by (simp add: configure_style_def Let_def)
qed

lemma apply_style_configurations_total:
  assumes "\<forall>(n, c) \<in> set cs. \<forall>v. sc_color c = Some v \<longrightarrow> is_rgb v"
  shows "\<exists>sts' lg. apply_style_configurations sts cs h = Inr (sts', lg)"
  using assms
proof (induction cs arbitrary: sts)
  case Nil
  then show ?case by simp
next
  case (Cons nc cs)
  obtain n c where nc: "nc = (n, c)" by (cases nc)
  from Cons.prems nc have col: "\<forall>v. sc_color c = Some v \<longrightarrow> is_rgb v" by simp
  from Cons.prems have rest: "\<forall>(n, c) \<in> set cs. \<forall>v. sc_color c = Some v \<longrightarrow> is_rgb v" by simp
  show ?case
  proof (cases "map_of sts n")
    case None
    with Cons.IH [OF rest, of sts] show ?thesis
      by (auto simp: nc get_style_def)
  next
    case (Some st)
    obtain st' where "configure_style c h st = Inr st'"
      using configure_style_ok [OF col] by blast
    with Some Cons.IH [OF rest, of "set_style n st' sts"] show ?thesis
      by (auto simp: nc get_style_def)
  qed
qed

text \<open>Without the style \<^verbatim>\<open>Title\<close>, styling the main title raises as soon as a
  paragraph has the text of the title.\<close>

lemma style_title_loop_missing:
  assumes "map_of sts ''Title'' = None" and "document_title \<in> set (map par_text paras)"
  shows "style_title_loop cfg sts document_title i None paras = Inl (KeyError ''Title'')"
  using assms(2)
proof (induction paras arbitrary: i)
  case Nil
  then show ?case by simp
next
  case (Cons para paras)
  show ?case
  proof (cases "par_text para = document_title")
    case True
    with assms(1) show ?thesis by (simp add: get_style_def)
  next
    case False
    with Cons.prems have "document_title \<in> set (map par_text paras)" by auto
    from Cons.IH [OF this, of "Suc i"] False show ?thesis by simp
  qed
qed

lemma style_main_title_missing:
  assumes "map_of sts ''Title'' = None" and "document_title \<in> set (map par_text paras)"
  shows "style_main_title cfg sts paras document_title = Inl (KeyError ''Title'')"
  unfolding style_main_title_def using assms by (rule style_title_loop_missing)

text \<open>A style with nothing set, and a paragraph of style \<^verbatim>\<open>Normal\<close> with one run.\<close>

definition empty_style :: docx_style where
  "empty_style =
     \<lparr>st_font_name = None, st_font_size = None, st_bold = None, st_italic = None,
      st_color = None, st_space_before = None, st_space_after = None,
      st_line_spacing = None, st_base_style = None, st_numbered = False,
      st_superscript = None, st_lang = None\<rparr>"

definition text_paragraph :: "string \<Rightarrow> paragraph_rec" where
  "text_paragraph t =
     \<lparr>par_runs = [new_run t], par_style = ''Normal'', par_alignment = None,
      par_space_before = None, par_space_after = None, par_line_spacing = None\<rparr>"

text \<open>
  C5. A document has the style \<^verbatim>\<open>Normal\<close> and no style \<^verbatim>\<open>Title\<close>, and its first
  paragraph is the title \<^verbatim>\<open>T\<close>. Configuring the standard styles returns normally with
  the warning for \<^verbatim>\<open>Title\<close>; styling the main title raises \<^verbatim>\<open>KeyError\<close>.
\<close>

theorem missing_title_style_raises:
  "(\<exists>sts'. apply_style_configurations [(''Normal'', empty_style)] (standard_styles example_config)
       False = Inr (sts', [style_not_found ''Title''])) \<and>
   style_main_title example_config [(''Normal'', empty_style)]
       [text_paragraph ''T'', text_paragraph ''body''] ''T'' = Inl (KeyError ''Title'')"
  by (simp add: standard_styles_def get_style_def configure_style_def Let_def
      style_main_title_def text_paragraph_def par_text_def new_run_def set_style_def)

section \<open>The resize step keeps the aspect ratio\<close>

subsection \<open>The error of one rounding\<close>

lemma pow2_powi: "pow2 e = 2 powi e"
  by (simp add: pow2_def power_int_def power_one_over field_simps)

lemma pow2_pos: "0 < pow2 e"
  by (simp add: pow2_powi)

lemma pow2_add: "pow2 (a + b) = pow2 a * pow2 b"
  by (simp add: pow2_powi power_int_add)

lemma pow2_nat: "0 \<le> e \<Longrightarrow> pow2 e = 2 ^ nat e"
  by (simp add: pow2_def)

lemma ilog2_bounds:
  assumes "0 < x"
  shows "pow2 (ilog2 x) \<le> x \<and> x < pow2 (ilog2 x + 1)"
proof -
  obtain p q where pq: "quotient_of x = (p, q)" by (cases "quotient_of x")
  then have q: "0 < q" and x: "x = of_int p / of_int q"
    using quotient_of_denom_pos quotient_of_div by blast+
  from assms q x have p: "0 < p"
    by (simp add: zero_less_divide_iff)
  let ?d = "bitlen p - bitlen q"
  from bitlen_bounds [OF p] have p1: "2 ^ nat (bitlen p - 1) \<le> p" and p2: "p < 2 ^ nat (bitlen p)"
    by auto
  from bitlen_bounds [OF q] have q1: "2 ^ nat (bitlen q - 1) \<le> q" and q2: "q < 2 ^ nat (bitlen q)"
    by auto
  have bp: "1 \<le> bitlen p" using p by (auto simp: bitlen_alt_def)
  have bq: "1 \<le> bitlen q" using q by (auto simp: bitlen_alt_def)
  have P1: "pow2 (bitlen p - 1) \<le> of_int p"
  proof -
    have "(of_int (2 ^ nat (bitlen p - 1)) :: rat) \<le> of_int p" using p1 by (simp only: of_int_le_iff)
    then show ?thesis using bp by (simp add: pow2_nat)
  qed
  have P2: "of_int p < pow2 (bitlen p)"
  proof -
    have "(of_int p :: rat) < of_int (2 ^ nat (bitlen p))" using p2 by (simp only: of_int_less_iff)
    then show ?thesis using bp by (simp add: pow2_nat)
  qed
  have Q1: "pow2 (bitlen q - 1) \<le> of_int q"
  proof -
    have "(of_int (2 ^ nat (bitlen q - 1)) :: rat) \<le> of_int q" using q1 by (simp only: of_int_le_iff)
    then show ?thesis using bq by (simp add: pow2_nat)
  qed
  have Q2: "of_int q < pow2 (bitlen q)"
  proof -
    have "(of_int q :: rat) < of_int (2 ^ nat (bitlen q))" using q2 by (simp only: of_int_less_iff)
    then show ?thesis using bq by (simp add: pow2_nat)
  qed
  have qpos: "(0::rat) < of_int q" using q by simp
  have up: "x < pow2 (?d + 1)"
  proof -
    have "pow2 (?d + 1) * pow2 (bitlen q - 1) = pow2 (bitlen p)"
      by (simp add: pow2_add [symmetric])
    then have "of_int p < pow2 (?d + 1) * pow2 (bitlen q - 1)" using P2 by simp
    also have "\<dots> \<le> pow2 (?d + 1) * of_int q"
      using Q1 pow2_pos [of "?d + 1"] by (simp add: mult_left_mono)
    finally show ?thesis using qpos unfolding x by (simp add: pos_divide_less_eq)
  qed
  have low: "pow2 (?d - 1) < x"
  proof -
    have "pow2 (?d - 1) * pow2 (bitlen q) = pow2 (bitlen p - 1)"
      by (simp add: pow2_add [symmetric])
    moreover have "pow2 (?d - 1) * of_int q < pow2 (?d - 1) * pow2 (bitlen q)"
      using Q2 pow2_pos [of "?d - 1"] by (simp add: mult_strict_left_mono)
    ultimately have "pow2 (?d - 1) * of_int q < of_int p" using P1 by simp
    then show ?thesis using qpos unfolding x by (simp add: pos_less_divide_eq)
  qed
  show ?thesis
  proof (cases "pow2 ?d \<le> x")
    case True
    then have "ilog2 x = ?d" by (simp add: ilog2_def pq)
    with True up show ?thesis by simp
  next
    case False
    then have "ilog2 x = ?d - 1" by (simp add: ilog2_def pq)
    with False low show ?thesis by simp
  qed
qed

lemma round_half_even_error: "\<bar>of_int (round_half_even y) - y\<bar> \<le> 1 / 2"
proof -
  define f where "f = \<lfloor>y\<rfloor>"
  define r where "r = y - of_int f"
  have r: "0 \<le> r" "r < 1" unfolding r_def f_def by linarith+
  have y: "y = of_int f + r" unfolding r_def by simp
  have rhe: "round_half_even y =
      (if r < 1 / 2 then f else if 1 / 2 < r then f + 1 else if even f then f else f + 1)"
    unfolding round_half_even_def Let_def f_def r_def ..
  define n where "n = round_half_even y"
  have "(n = f \<and> r \<le> 1 / 2) \<or> (n = f + 1 \<and> 1 / 2 \<le> r)"
    unfolding n_def rhe by auto
  moreover have "of_int n - y = of_int (n - f) - r" unfolding r_def by simp
  ultimately have "\<bar>of_int n - y\<bar> \<le> 1 / 2" using r by auto
  then show ?thesis unfolding n_def .
qed

lemma fl_error:
  assumes "0 < x"
  shows "\<bar>fl x - x\<bar> \<le> x / 2 ^ 53"
proof -
  let ?e = "ilog2 x"
  let ?u = "pow2 (?e - 52)"
  have u: "0 < ?u" by (rule pow2_pos)
  from assms have ax: "\<bar>x\<bar> = x" "sgn x = 1" "x \<noteq> 0" by simp_all
  have f: "fl x = of_int (round_half_even (x / ?u)) * ?u"
    using ax by (simp add: fl_def Let_def)
  have "\<bar>fl x - x\<bar> = \<bar>of_int (round_half_even (x / ?u)) - x / ?u\<bar> * ?u"
  proof -
    have "fl x - x = (of_int (round_half_even (x / ?u)) - x / ?u) * ?u"
      using u by (simp add: f field_simps)
    then show ?thesis using u by (simp add: abs_mult)
  qed
  also have "\<dots> \<le> (1 / 2) * ?u"
    using round_half_even_error [of "x / ?u"] u by (simp add: mult_right_mono)
  also have "\<dots> \<le> x / 2 ^ 53"
  proof -
    have "pow2 ?e = ?u * pow2 52" by (simp add: pow2_add [symmetric])
    also have "pow2 52 = 2 ^ 52" by (simp add: pow2_nat)
    finally have "?u * 2 ^ 52 \<le> x" using ilog2_bounds [OF assms] by simp
    then show ?thesis by (simp add: field_simps)
  qed
  finally show ?thesis .
qed

lemma fl_zero: "fl 0 = 0"
  by (simp add: fl_def)

lemma fl_nonneg: "0 \<le> x \<Longrightarrow> 0 \<le> fl x"
proof (cases "x = 0")
  case True
  then show ?thesis by (simp add: fl_zero)
next
  case False
  assume "0 \<le> x"
  with False have x: "0 < x" by simp
  have "(1::rat) \<le> 2 ^ 53" by (rule one_le_power) simp
  then have "x / 2 ^ 53 \<le> x" using x by (simp add: divide_le_eq del: power_numeral)
  moreover from fl_error [OF x] have "x - x / 2 ^ 53 \<le> fl x" by (simp only: abs_le_iff) linarith
  ultimately show ?thesis using x by linarith
qed

text \<open>The maximal width is a float: converting it changes nothing.\<close>

lemma fl_max_width: "fl (of_int MAX_IMAGE_WIDTH) = of_int MAX_IMAGE_WIDTH"
  unfolding MAX_IMAGE_WIDTH_def by code_simp


subsection \<open>The height after two roundings and one truncation\<close>

lemma fl_bounds:
  assumes "0 < x"
  shows "x * (1 - 1 / 2 ^ 53) \<le> fl x" and "fl x \<le> x * (1 + 1 / 2 ^ 53)"
proof -
  from fl_error [OF assms] have e: "- (x / 2 ^ 53) \<le> fl x - x" "fl x - x \<le> x / 2 ^ 53"
    by (simp_all only: abs_le_iff) linarith+
  have "x * (1 - 1 / 2 ^ 53) = x - x / 2 ^ 53" by (simp add: algebra_simps)
  with e(1) show "x * (1 - 1 / 2 ^ 53) \<le> fl x" by linarith
  have "x * (1 + 1 / 2 ^ 53) = x + x / 2 ^ 53" by (simp add: algebra_simps)
  with e(2) show "fl x \<le> x * (1 + 1 / 2 ^ 53)" by linarith
qed

lemma scaled_height_bounds:
  fixes w h :: int
  assumes w: "MAX_IMAGE_WIDTH < w" and h0: "0 < h" and h1: "h < 2 ^ 28"
  defines "x \<equiv> (of_int (MAX_IMAGE_WIDTH * h) / of_int w :: rat)"
  defines "b \<equiv> fl (of_int MAX_IMAGE_WIDTH * fl (of_int h / of_int w))"
  shows "x - 1 < b" and "b < of_int \<lfloor>x\<rfloor> + 1" and "0 \<le> b"
proof -
  define \<epsilon> :: rat where "\<epsilon> = 1 / 2 ^ 53"
  define M :: rat where "M = of_int MAX_IMAGE_WIDTH"
  define q :: rat where "q = of_int h / of_int w"
  define a where "a = fl q"
  have Mv: "M = 5486400" by (simp add: M_def MAX_IMAGE_WIDTH_def)
  have wpos: "(0::rat) < of_int w" and wM: "M < of_int w"
    using w unfolding M_def MAX_IMAGE_WIDTH_def by simp_all
  have hpos: "(0::rat) < of_int h" using h0 by simp
  have hlt: "(of_int h :: rat) < 2 ^ 28"
  proof -
    have "(of_int h :: rat) < of_int (2 ^ 28)" using h1 by (simp only: of_int_less_iff)
    then show ?thesis by simp
  qed
  have q: "0 < q" unfolding q_def using hpos wpos by simp
  have x: "x = M * q" unfolding x_def M_def q_def by simp
  have xpos: "0 < x" unfolding x using q Mv by simp
  have eps: "0 < \<epsilon>" "\<epsilon> < 1" unfolding \<epsilon>_def by simp_all
  have a1: "q * (1 - \<epsilon>) \<le> a" and a2: "a \<le> q * (1 + \<epsilon>)"
    unfolding a_def \<epsilon>_def using fl_bounds [OF q] by simp_all
  have apos: "0 < a"
  proof -
    have "0 < q * (1 - \<epsilon>)" using q eps by simp
    with a1 show ?thesis by linarith
  qed
  have Ma: "0 < M * a" using apos Mv by simp
  have b: "b = fl (M * a)" unfolding b_def M_def a_def q_def ..
  have b1: "M * a * (1 - \<epsilon>) \<le> b" and b2: "b \<le> M * a * (1 + \<epsilon>)"
    unfolding b \<epsilon>_def using fl_bounds [OF Ma] by simp_all
  have up: "b \<le> x * ((1 + \<epsilon>) * (1 + \<epsilon>))"
  proof -
    have "M * a \<le> M * (q * (1 + \<epsilon>))" using a2 Mv by simp
    then have "M * a * (1 + \<epsilon>) \<le> M * (q * (1 + \<epsilon>)) * (1 + \<epsilon>)"
      using eps by (simp add: mult_right_mono)
    with b2 show ?thesis unfolding x by (simp add: mult.assoc)
  qed
  have low: "x * ((1 - \<epsilon>) * (1 - \<epsilon>)) \<le> b"
  proof -
    have "M * (q * (1 - \<epsilon>)) \<le> M * a" using a1 Mv by simp
    then have "M * (q * (1 - \<epsilon>)) * (1 - \<epsilon>) \<le> M * a * (1 - \<epsilon>)"
      using eps by (simp add: mult_right_mono)
    with b1 show ?thesis unfolding x by (simp add: mult.assoc)
  qed
  have xh: "x < of_int h"
  proof -
    have "M * of_int h < of_int w * of_int h" using wM hpos by simp
    then show ?thesis unfolding x q_def using wpos by (simp add: field_simps)
  qed
  show "0 \<le> b" using low xpos eps
    by (meson less_eq_rat_def mult_pos_pos diff_gt_0_iff_gt order_trans)
  show "x - 1 < b"
  proof -
    have "x * (2 * \<epsilon>) < 1"
    proof -
      have "x * (2 * \<epsilon>) < 2 ^ 28 * (2 * \<epsilon>)"
      proof (rule mult_strict_right_mono)
        show "x < 2 ^ 28" using xh hlt by linarith
        show "0 < 2 * \<epsilon>" using eps by simp
      qed
      also have "\<dots> \<le> 1" unfolding \<epsilon>_def by simp
      finally show ?thesis .
    qed
    moreover have "x * ((1 - \<epsilon>) * (1 - \<epsilon>)) = x - x * (2 * \<epsilon>) + x * (\<epsilon> * \<epsilon>)"
      by (simp add: algebra_simps)
    moreover have "0 \<le> x * (\<epsilon> * \<epsilon>)" using xpos eps by simp
    ultimately show ?thesis using low by linarith
  qed
  show "b < of_int \<lfloor>x\<rfloor> + 1"
  proof -
    have xw: "x * of_int w = of_int (MAX_IMAGE_WIDTH * h)"
      unfolding x_def using wpos by simp
    have "x < of_int (\<lfloor>x\<rfloor> + 1)" by linarith
    then have "x * of_int w < of_int (\<lfloor>x\<rfloor> + 1) * of_int w"
      using wpos by (simp add: mult_strict_right_mono del: of_int_add)
    then have "(of_int (MAX_IMAGE_WIDTH * h) :: rat) < of_int ((\<lfloor>x\<rfloor> + 1) * w)"
      unfolding xw by (simp del: of_int_add)
    then have "MAX_IMAGE_WIDTH * h < (\<lfloor>x\<rfloor> + 1) * w" by (simp only: of_int_less_iff)
    then have "MAX_IMAGE_WIDTH * h + 1 \<le> (\<lfloor>x\<rfloor> + 1) * w" by simp
    then have "(of_int (MAX_IMAGE_WIDTH * h + 1) :: rat) \<le> of_int ((\<lfloor>x\<rfloor> + 1) * w)"
      by (simp only: of_int_le_iff)
    then have "x * of_int w + 1 \<le> (of_int \<lfloor>x\<rfloor> + 1) * of_int w"
      unfolding xw by simp
    then have step: "x + 1 / of_int w \<le> of_int \<lfloor>x\<rfloor> + 1"
      using wpos by (simp add: field_simps)
    have "x * (2 * \<epsilon> + \<epsilon> * \<epsilon>) < 1 / of_int w"
    proof -
      have "x * of_int w * (2 * \<epsilon> + \<epsilon> * \<epsilon>) = M * of_int h * (2 * \<epsilon> + \<epsilon> * \<epsilon>)"
        unfolding xw M_def by simp
      also have "\<dots> < M * 2 ^ 28 * (2 * \<epsilon> + \<epsilon> * \<epsilon>)"
      proof (rule mult_strict_right_mono)
        show "M * of_int h < M * 2 ^ 28" using hlt Mv by simp
        show "0 < 2 * \<epsilon> + \<epsilon> * \<epsilon>" using eps by (simp add: add_pos_pos)
      qed
      also have "\<dots> \<le> 1" unfolding Mv \<epsilon>_def by simp
      finally have "x * of_int w * (2 * \<epsilon> + \<epsilon> * \<epsilon>) < 1" .
      then show ?thesis using wpos by (simp add: field_simps)
    qed
    moreover have "x * ((1 + \<epsilon>) * (1 + \<epsilon>)) = x + x * (2 * \<epsilon> + \<epsilon> * \<epsilon>)"
      by (simp add: algebra_simps)
    ultimately show ?thesis using up step by linarith
  qed
qed


lemma resize_picture_wide:
  "MAX_IMAGE_WIDTH < w \<Longrightarrow>
   resize_picture (w, h) =
     (MAX_IMAGE_WIDTH, py_int (fl (of_int MAX_IMAGE_WIDTH * fl (of_int h / of_int w))))"
  by (simp add: resize_picture_def py_int_mul_float_def py_truediv_def fl_max_width Let_def)

lemma scaled_height_floor:
  fixes w h :: int
  assumes w: "MAX_IMAGE_WIDTH < w" and h0: "0 \<le> h" and h1: "h < 2 ^ 28"
  shows "snd (resize_picture (w, h)) = (MAX_IMAGE_WIDTH * h) div w \<or>
         snd (resize_picture (w, h)) = (MAX_IMAGE_WIDTH * h) div w - 1"
proof (cases "h = 0")
  case True
  then show ?thesis
    by (simp add: resize_picture_wide [OF w] fl_zero py_int_def)
next
  case False
  with h0 have hp: "0 < h" by simp
  define x :: rat where "x = of_int (MAX_IMAGE_WIDTH * h) / of_int w"
  define b where "b = fl (of_int MAX_IMAGE_WIDTH * fl (of_int h / of_int w))"
  note bs = scaled_height_bounds [OF w hp h1, folded x_def b_def]
  have fx: "\<lfloor>x\<rfloor> = (MAX_IMAGE_WIDTH * h) div w"
    unfolding x_def by (rule floor_divide_of_int_eq)
  have H: "snd (resize_picture (w, h)) = \<lfloor>b\<rfloor>"
    using bs(3) by (simp add: resize_picture_wide [OF w] py_int_def b_def)
  have "\<lfloor>x - 1\<rfloor> \<le> \<lfloor>b\<rfloor>" using bs(1) by (intro floor_mono) simp
  then have lo: "\<lfloor>x\<rfloor> - 1 \<le> \<lfloor>b\<rfloor>" by simp
  have "b < of_int (\<lfloor>x\<rfloor> + 1)" using bs(2) by simp
  then have hi: "\<lfloor>b\<rfloor> < \<lfloor>x\<rfloor> + 1" by (simp only: floor_less_iff)
  from lo hi have "\<lfloor>b\<rfloor> = \<lfloor>x\<rfloor> \<or> \<lfloor>b\<rfloor> = \<lfloor>x\<rfloor> - 1" by linarith
  then show ?thesis unfolding H fx .
qed

lemma scaled_ratio:
  fixes w h H :: int
  assumes w: "MAX_IMAGE_WIDTH < w"
    and H: "H = (MAX_IMAGE_WIDTH * h) div w \<or> H = (MAX_IMAGE_WIDTH * h) div w - 1"
  shows "(of_int H / of_int MAX_IMAGE_WIDTH :: rat) \<le> of_int h / of_int w"
    and "(of_int h / of_int w :: rat) - of_int H / of_int MAX_IMAGE_WIDTH
           < 2 / of_int MAX_IMAGE_WIDTH"
proof -
  define x :: rat where "x = of_int (MAX_IMAGE_WIDTH * h) / of_int w"
  define M :: rat where "M = of_int MAX_IMAGE_WIDTH"
  have M: "0 < M" by (simp add: M_def MAX_IMAGE_WIDTH_def)
  have wpos: "(0::rat) < of_int w" using w by (simp add: MAX_IMAGE_WIDTH_def)
  have fx: "\<lfloor>x\<rfloor> = (MAX_IMAGE_WIDTH * h) div w"
    unfolding x_def by (rule floor_divide_of_int_eq)
  have xq: "x / M = of_int h / of_int w"
    unfolding x_def M_def using M wpos by (simp add: M_def)
  from H have "H = \<lfloor>x\<rfloor> \<or> H = \<lfloor>x\<rfloor> - 1" unfolding fx .
  then have 1: "of_int H \<le> x" and 2: "x - of_int H < 2" by (auto; linarith)+
  from 1 have "of_int H / M \<le> x / M" using M by (simp add: divide_right_mono)
  then have "of_int H / M \<le> of_int h / of_int w" unfolding xq .
  then show "(of_int H / of_int MAX_IMAGE_WIDTH :: rat) \<le> of_int h / of_int w"
    unfolding M_def .
  from 2 have "(x - of_int H) / M < 2 / M" using M by (simp add: divide_strict_right_mono)
  then have "x / M - of_int H / M < 2 / M" by (simp add: diff_divide_distrib)
  then have "of_int h / of_int w - of_int H / M < 2 / M" unfolding xq .
  then show "(of_int h / of_int w :: rat) - of_int H / of_int MAX_IMAGE_WIDTH
           < 2 / of_int MAX_IMAGE_WIDTH"
    unfolding M_def .
qed

text \<open>
  C3, as the code has it. A picture wider than \<^verbatim>\<open>MAX_IMAGE_WIDTH\<close>, of a height from 0 to
  below \<open>2\<^sup>2\<^sup>8\<close> EMU, gets the width \<^verbatim>\<open>MAX_IMAGE_WIDTH\<close> and a height that is the exact
  quotient \<open>MAX_IMAGE_WIDTH \<sqdot> height / width\<close> rounded down, or one less: the quotient
  \<^verbatim>\<open>height / width\<close> is rounded to a float before the multiplication, and the product is
  rounded again before \<^verbatim>\<open>int\<close> truncates. The new ratio of height to width is at most the
  old one and less than two units of height below it. A picture that is not wider than
  \<^verbatim>\<open>MAX_IMAGE_WIDTH\<close> keeps its width and height.
\<close>

theorem resize_keeps_aspect_ratio:
  "(MAX_IMAGE_WIDTH < w \<and> 0 \<le> h \<and> h < 2 ^ 28 \<longrightarrow>
      fst (resize_picture (w, h)) = MAX_IMAGE_WIDTH \<and>
      (snd (resize_picture (w, h)) = (MAX_IMAGE_WIDTH * h) div w \<or>
       snd (resize_picture (w, h)) = (MAX_IMAGE_WIDTH * h) div w - 1) \<and>
      (of_int (snd (resize_picture (w, h))) / of_int MAX_IMAGE_WIDTH :: rat)
        \<le> of_int h / of_int w \<and>
      (of_int h / of_int w :: rat)
        - of_int (snd (resize_picture (w, h))) / of_int MAX_IMAGE_WIDTH
        < 2 / of_int MAX_IMAGE_WIDTH) \<and>
   (w \<le> MAX_IMAGE_WIDTH \<longrightarrow> resize_picture (w, h) = (w, h))"
proof (intro conjI impI)
  assume a: "MAX_IMAGE_WIDTH < w \<and> 0 \<le> h \<and> h < 2 ^ 28"
  then show "fst (resize_picture (w, h)) = MAX_IMAGE_WIDTH"
    by (simp add: resize_picture_wide)
  from a show H: "snd (resize_picture (w, h)) = (MAX_IMAGE_WIDTH * h) div w \<or>
       snd (resize_picture (w, h)) = (MAX_IMAGE_WIDTH * h) div w - 1"
    using scaled_height_floor by blast
  from a H show "(of_int (snd (resize_picture (w, h))) / of_int MAX_IMAGE_WIDTH :: rat)
        \<le> of_int h / of_int w"
    using scaled_ratio(1) by blast
  from a H show "(of_int h / of_int w :: rat)
        - of_int (snd (resize_picture (w, h))) / of_int MAX_IMAGE_WIDTH
        < 2 / of_int MAX_IMAGE_WIDTH"
    using scaled_ratio(2) by blast
next
  assume "w \<le> MAX_IMAGE_WIDTH"
  then show "resize_picture (w, h) = (w, h)"
    by (simp add: resize_picture_def)
qed

text \<open>
  A picture of 600 by 420 pixels at 72 dpi is 7620000 by 5334000 EMU. The code gives it
  the height 3840479; \<open>MAX_IMAGE_WIDTH \<sqdot> height / width\<close> is 3840480 exactly, and so is
  \<^verbatim>\<open>int(MAX_IMAGE_WIDTH * height / width)\<close> as Python evaluates it, the product first.
\<close>

theorem resize_height_one_less:
  "resize_picture (7620000, 5334000) = (5486400, 3840479) \<and>
   (MAX_IMAGE_WIDTH * 5334000) div 7620000 = 3840480 \<and>
   py_int (py_truediv (MAX_IMAGE_WIDTH * 5334000) 7620000) = 3840480"
  unfolding resize_picture_def py_int_mul_float_def py_truediv_def MAX_IMAGE_WIDTH_def
  by code_simp

text \<open>The same picture, and one of an inch by 600 EMU that is left alone.\<close>

theorem resize_keeps_aspect_ratio_witness:
  "fst (resize_picture (7620000, 5334000)) = 5486400 \<and>
   (snd (resize_picture (7620000, 5334000)) = 3840480 \<or>
    snd (resize_picture (7620000, 5334000)) = 3840479) \<and>
   resize_picture (914400, 600) = (914400, 600)"
proof -
  note t1 = resize_keeps_aspect_ratio [of 7620000 5334000, THEN conjunct1, rule_format]
  note t2 = resize_keeps_aspect_ratio [of 914400 600, THEN conjunct2, rule_format]
  have a: "MAX_IMAGE_WIDTH < 7620000 \<and> (0::int) \<le> 5334000 \<and> (5334000::int) < 2 ^ 28"
    by (simp add: MAX_IMAGE_WIDTH_def)
  have d: "(MAX_IMAGE_WIDTH * 5334000) div 7620000 = 3840480"
    by (simp add: MAX_IMAGE_WIDTH_def)
  have m: "MAX_IMAGE_WIDTH = 5486400" by (simp add: MAX_IMAGE_WIDTH_def)
  have b: "(914400::int) \<le> MAX_IMAGE_WIDTH" by (simp add: MAX_IMAGE_WIDTH_def)
  from t1 [OF a] have "fst (resize_picture (7620000, 5334000)) = 5486400"
    and "snd (resize_picture (7620000, 5334000)) = 3840480 \<or>
         snd (resize_picture (7620000, 5334000)) = 3840479"
    unfolding d m by simp_all
  with t2 [OF b] show ?thesis by simp
qed

end
